theory Spec2Isabelle
  imports Main
begin

section \<open>linear-task-sync: label reconciliation for a remote issue tracker\<close>

text \<open>
  The repository holds two variants of one engine. The static variant
  (\<^verbatim>\<open>src/unnamed/part_000\<close>) infers the two required label names from the project
  identifier; the lookup-table variant (\<^verbatim>\<open>src/sync_v1.mts\<close>) reads them from a
  mapping document keyed by project name. Both fetch all issues and all workspace labels
  page by page, select the issues that miss a required label, and send one update per
  issue whose label-id set grows.

  Conventions of the embedding.
  \<^item> A JavaScript string is a \<^typ>\<open>string\<close>: a list of 8-bit code units. Strings with
    code units above 255 are outside the model.
  \<^item> A JavaScript number that holds an integer or NaN is an \<^typ>\<open>int option\<close>, with
    \<^term>\<open>None\<close> for NaN. The only arithmetic of the program is on the result of
    \<^verbatim>\<open>parseInt\<close> of at most three characters, where floating point is exact.
  \<^item> A raised exception is \<^term>\<open>Inl e\<close> of a sum type; a returned value is \<^term>\<open>Inr v\<close>.
\<close>

subsection \<open>Strings and numbers of the JavaScript runtime\<close>

text \<open>\<^verbatim>\<open>s.split(sep)\<close> for a one-character separator: never an empty array.\<close>

fun split :: "char \<Rightarrow> string \<Rightarrow> string list" where
  "split sep [] = [[]]"
| "split sep (c # cs) =
     (if c = sep then [] # split sep cs
      else (case split sep cs of
              [] \<Rightarrow> [[c]]
            | p # ps \<Rightarrow> (c # p) # ps))"

text \<open>\<^verbatim>\<open>s.substring(a, b)\<close> and \<^verbatim>\<open>s.slice(a, b)\<close> for non-negative indices.\<close>

definition substring :: "nat \<Rightarrow> nat \<Rightarrow> string \<Rightarrow> string" where
  "substring a b s = take (max a b - min a b) (drop (min a b) s)"

definition slice :: "nat \<Rightarrow> nat \<Rightarrow> string \<Rightarrow> string" where
  "slice a b s = (if a < b then take (b - a) (drop a s) else [])"

text \<open>\<^verbatim>\<open>s.padStart(n, c)\<close> for a one-character filler.\<close>

definition padStart :: "nat \<Rightarrow> char \<Rightarrow> string \<Rightarrow> string" where
  "padStart n c s = replicate (n - length s) c @ s"

definition isWhiteSpace :: "char \<Rightarrow> bool" where
  "isWhiteSpace c = ((of_char c :: nat) \<in> set [9, 10, 11, 12, 13, 32, 160])"

definition isDigit :: "char \<Rightarrow> bool" where
  "isDigit c = (48 \<le> (of_char c :: nat) \<and> (of_char c :: nat) \<le> 57)"

text \<open>The value of a character as a digit of the given radix (10 or 16).\<close>

definition digitValue :: "nat \<Rightarrow> char \<Rightarrow> nat option" where
  "digitValue radix c =
     (let n = (of_char c :: nat) in
      if 48 \<le> n \<and> n \<le> 57 then Some (n - 48)
      else if radix = 16 \<and> 97 \<le> n \<and> n \<le> 102 then Some (n - 87)
      else if radix = 16 \<and> 65 \<le> n \<and> n \<le> 70 then Some (n - 55)
      else None)"

definition digitsValue :: "nat \<Rightarrow> string \<Rightarrow> nat" where
  "digitsValue radix z = foldl (\<lambda>acc c. acc * radix + the (digitValue radix c)) 0 z"

definition hexPrefix :: "string \<Rightarrow> bool" where
  "hexPrefix s = (take 2 s = ''0x'' \<or> take 2 s = ''0X'')"

text \<open>
  \<^verbatim>\<open>parseInt(s)\<close> with no radix argument, after ECMAScript: leading white space is
  skipped, one sign is read, a prefix \<^verbatim>\<open>0x\<close> or \<^verbatim>\<open>0X\<close> selects radix 16, and the longest
  run of digits is the value; no digit at all gives NaN.
\<close>

definition parseInt :: "string \<Rightarrow> int option" where
  "parseInt inputString =
     (let s0 = dropWhile isWhiteSpace inputString;
          sign = (if s0 \<noteq> [] \<and> hd s0 = CHR ''-'' then - 1 else 1 :: int);
          s1 = (if s0 \<noteq> [] \<and> (hd s0 = CHR ''+'' \<or> hd s0 = CHR ''-'') then tl s0 else s0);
          radix = (if hexPrefix s1 then 16 else 10);
          s2 = (if hexPrefix s1 then drop 2 s1 else s1);
          z = takeWhile (\<lambda>c. digitValue radix c \<noteq> None) s2
      in if z = [] then None else Some (sign * int (digitsValue radix z)))"

text \<open>\<^verbatim>\<open>n.toString()\<close> for an integer or NaN.\<close>

fun natToString :: "nat \<Rightarrow> string" where
  "natToString n =
     (if n < 10 then [''0123456789'' ! n]
      else natToString (n div 10) @ [''0123456789'' ! (n mod 10)])"

definition toString :: "int option \<Rightarrow> string" where
  "toString x =
     (case x of
        None \<Rightarrow> ''NaN''
      | Some i \<Rightarrow> if i < 0 then CHR ''-'' # natToString (nat (- i)) else natToString (nat i))"

text \<open>\<^verbatim>\<open>Math.floor(x / 100) * 100\<close> and \<^verbatim>\<open>x + 99\<close>; NaN propagates.\<close>

definition floorHundred :: "int option \<Rightarrow> int option" where
  "floorHundred x = map_option (\<lambda>i. (i div 100) * 100) x"

definition plus99 :: "int option \<Rightarrow> int option" where
  "plus99 x = map_option (\<lambda>i. i + 99) x"

subsection \<open>Errors\<close>

datatype error =
    InvalidProjectIdentifier string
  | HttpError nat
  | GraphQLRequestFailed
  | MissingData
  | TransportError string
  | TypeError

subsection \<open>Static label inference\<close>

definition inferCoreSystemsLabel :: "string \<Rightarrow> error + string" where
  "inferCoreSystemsLabel projectIdentifier =
     (if projectIdentifier = [] then Inl (InvalidProjectIdentifier projectIdentifier)
      else (case split CHR ''.'' projectIdentifier of
              [] \<Rightarrow> Inl (InvalidProjectIdentifier projectIdentifier)
            | part0 # _ \<Rightarrow>
                (let systemNumber = parseInt (substring 0 3 part0);
                     lowerBound = floorHundred systemNumber;
                     upperBound = plus99 lowerBound
                 in Inr (''['' @ padStart 3 CHR ''0'' (toString lowerBound) @ ''-''
                         @ padStart 3 CHR ''0'' (toString upperBound) @ '']''))))"

definition inferCoreAreasLabel :: "string \<Rightarrow> error + string" where
  "inferCoreAreasLabel projectIdentifier =
     (if projectIdentifier = [] then Inl (InvalidProjectIdentifier projectIdentifier)
      else (case split CHR ''.'' projectIdentifier of
              [] \<Rightarrow> Inl (InvalidProjectIdentifier projectIdentifier)
            | part0 # _ \<Rightarrow>
                (let areaNumber = slice 1 4 part0
                 in Inr (''['' @ areaNumber @ '']''))))"

text \<open>
  The reading of the specification for the system label: the decimal value of a digit
  string, a number zero-padded to three digits, and the bracketed range of the hundred
  that holds \<open>n\<close>.
\<close>

definition spec_decimal :: "string \<Rightarrow> nat" where
  "spec_decimal ds = foldl (\<lambda>acc c. acc * 10 + ((of_char c :: nat) - 48)) 0 ds"

definition spec_zero_padded_3 :: "nat \<Rightarrow> string" where
  "spec_zero_padded_3 n = replicate (3 - length (natToString n)) CHR ''0'' @ natToString n"

definition spec_system_label :: "nat \<Rightarrow> string" where
  "spec_system_label n =
     ''['' @ spec_zero_padded_3 ((n div 100) * 100) @ ''-''
     @ spec_zero_padded_3 ((n div 100) * 100 + 99) @ '']''"

text \<open>The first dot-separated segment of an identifier.\<close>

definition firstSegment :: "string \<Rightarrow> string" where
  "firstSegment s = takeWhile (\<lambda>c. c \<noteq> CHR ''.'') s"

subsection \<open>Data model\<close>

text \<open>
  The interfaces \<^verbatim>\<open>Label\<close> and \<^verbatim>\<open>Issue\<close>. The static variant declares
  \<^verbatim>\<open>project.identifier\<close>; the lookup-table variant has no such field and never reads it.
  The issue query of the static variant does not ask for \<^verbatim>\<open>project.identifier\<close>: a
  service that answers the query as written leaves the field undefined, which the code
  treats like the empty string; the theorems hold for every answer of the service.
\<close>

record label =
  label_id :: string
  label_name :: string

record project =
  project_id :: string
  project_name :: string
  project_identifier :: string

record team =
  team_id :: string
  team_name :: string

record issue =
  issue_id :: string
  title :: string
  issue_identifier :: string
  labels :: "label list"
  project :: "project option"
  team :: team

text \<open>One page of a paginated query: \<^verbatim>\<open>nodes\<close> and the two fields of \<^verbatim>\<open>pageInfo\<close>.\<close>

record 'a page =
  nodes :: "'a list"
  hasNextPage :: bool
  endCursor :: "string option"

text \<open>\<^verbatim>\<open>UpdateIssueMutationResponse\<close>: the code tests \<^verbatim>\<open>issueUpdate\<close> before it reads it.
  The field \<open>updated\<close> is the field \<^verbatim>\<open>issue\<close> of the response.\<close>

record issue_update =
  success :: bool
  updated :: issue

record update_data =
  issueUpdate :: "issue_update option"

text \<open>\<^verbatim>\<open>GraphQLResponse<T>\<close>: both fields are optional.\<close>

record 'a graphql_response =
  data :: "'a option"
  errors :: "string list option"

text \<open>
  What \<^verbatim>\<open>fetch\<close> followed by \<^verbatim>\<open>response.json()\<close> yields: a rejection (no connection, a
  body that is not JSON), or \<^verbatim>\<open>response.ok\<close>, \<^verbatim>\<open>response.status\<close> and the parsed body.
\<close>

datatype 'a http_response =
    Rejected string
  | HttpResponse bool nat "'a graphql_response"

text \<open>
  What reading a property of a plain object yields: \<^verbatim>\<open>undefined\<close>, the value of an own
  property, or a member that the object inherits from \<^verbatim>\<open>Object.prototype\<close>, named by its
  key: a function such as \<^verbatim>\<open>toString\<close>, or for \<^verbatim>\<open>__proto__\<close> the prototype object itself.
  Two inherited members are the same object exactly when their keys are equal.
\<close>

datatype 'a js = Undefined | Value 'a | PrototypeMember string

text \<open>
  The three operations of the remote service, with their variables. Both variants declare
  the array \<^verbatim>\<open>labelIds\<close> of the mutation as \<^verbatim>\<open>string[]\<close>. In the static variant it holds
  strings. In the lookup-table variant it holds what the loop has put into the set, which
  at run time can be an inherited member of \<^verbatim>\<open>Object.prototype\<close> next to the strings
  (\<^verbatim>\<open>JSON.stringify\<close> writes a function in an array as \<^verbatim>\<open>null\<close>): the mutation of
  \<^verbatim>\<open>src/sync_v1.mts\<close> is the constructor \<open>UpdateIssueMutation_v1\<close>.
\<close>

datatype request =
    IssuesQuery "string option"
  | WorkspaceLabelsQuery "string option"
  | UpdateIssueMutation string "string list"
  | UpdateIssueMutation_v1 string "string js list"

text \<open>The lines the program prints, one constructor per \<^verbatim>\<open>console\<close> call of the source.\<close>

datatype console =
    RetryingOperation int
  | GraphQLRequestFailedLog nat
  | GraphQLErrorsLog "string list"
  | FetchedIssues nat
  | FetchedWorkspaceLabels nat
  | WorkspaceLabelsLog "string list"
  | SkippingNoIdentifier issue
  | SkippingNoProject issue
  | SkippingNotInMapping issue
  | IssueNeedsUpdate issue
  | IssuesNeedUpdating nat
  | LabelIdNotFound string
  | NoLabelChanges issue
  | UpdatingIssue issue
  | CurrentLabels "string list"
  | NewLabelIds "string list"
  | NewLabelIds_v1 "string js list"
  | SuccessfullyUpdated issue
  | UpdatedLabels "string list"
  | FailedToUpdate issue
  | UnexpectedResponse issue
  | ErrorUpdating issue error
  | TaskSyncCompleted
  | ErrorSyncingTasks error
  | ErrorLoadingMappings
  | ApiKeyNotSet
  | WorkspaceLabelsHeader
  | WorkspaceLabelLine label
  | RequiredLabelNotFound string

datatype event =
    Request request
  | Delay nat
  | Console console

text \<open>
  The lookup-table variant reads \<^verbatim>\<open>project_label_mappings.json\<close>. Reading or parsing
  can fail (a document that parses to \<^verbatim>\<open>null\<close> fails at the field access, inside the same
  \<^verbatim>\<open>try\<close>); a parsed document may lack the field \<^verbatim>\<open>PROJECT_LABEL_MAPPING\<close>. An entry
  has the two fields of the interface \<^verbatim>\<open>ProjectLabelMapping\<close>.
\<close>

record project_label_mapping =
  core_systems :: string
  core_areas :: string

datatype mapping_file =
    ReadFails
  | ParseFails
  | Parsed "(string \<rightharpoonup> project_label_mapping) option"

subsection \<open>The world outside the program\<close>

text \<open>
  The remote service is a stream of responses per operation: the program is sequential
  and deterministic, so the answer to its \<open>n\<close>-th request (counted from 0 over all
  operations) is a function of \<open>n\<close>, and quantifying over the streams covers every
  behaviour of the service. The trace records, in order, each request sent, each delay
  and each console line.
\<close>

record world =
  issuesResponses :: "nat \<Rightarrow> issue page http_response"
  labelsResponses :: "nat \<Rightarrow> label page http_response"
  updateResponses :: "nat \<Rightarrow> update_data http_response"
  mappingFile :: mapping_file
  sent :: nat
  trace :: "event list"

definition console :: "console \<Rightarrow> world \<Rightarrow> world" where
  "console line w = w\<lparr>trace := trace w @ [Console line]\<rparr>"

definition setTimeout :: "nat \<Rightarrow> world \<Rightarrow> world" where
  "setTimeout ms w = w\<lparr>trace := trace w @ [Delay ms]\<rparr>"

definition RETRY_ATTEMPTS :: int where
  "RETRY_ATTEMPTS = 3"

definition RETRY_DELAY :: nat where
  "RETRY_DELAY = 1000"

subsection \<open>The retry wrapper\<close>

text \<open>
  \<^verbatim>\<open>fetchWithRetry(operation, attempts)\<close>: the operation is a closure with effects, a
  function from the world to a result and a world.
\<close>

function fetchWithRetry ::
  "(world \<Rightarrow> (error + 'a) \<times> world) \<Rightarrow> int \<Rightarrow> world \<Rightarrow> (error + 'a) \<times> world" where
  "fetchWithRetry operation attempts w =
     (case operation w of
        (Inr v, w1) \<Rightarrow> (Inr v, w1)
      | (Inl e, w1) \<Rightarrow>
          if attempts \<le> 1 then (Inl e, w1)
          else fetchWithRetry operation (attempts - 1)
                 (setTimeout RETRY_DELAY (console (RetryingOperation (attempts - 1)) w1)))"
  by pat_completeness auto
termination
  by (relation "measure (\<lambda>(operation, attempts, w). nat attempts)") auto

declare fetchWithRetry.simps [simp del]

subsection \<open>One GraphQL request\<close>

text \<open>
  \<^verbatim>\<open>graphqlRequest(query, variables)\<close>. The first argument selects the stream of the
  operation the query belongs to. A response that is not \<^verbatim>\<open>ok\<close> raises, and so does a
  body with an \<^verbatim>\<open>errors\<close> field, even an empty list.
\<close>

definition graphqlRequest ::
  "(world \<Rightarrow> nat \<Rightarrow> 'a http_response) \<Rightarrow> request \<Rightarrow> world
   \<Rightarrow> (error + 'a graphql_response) \<times> world" where
  "graphqlRequest api req w =
     (let w1 = w\<lparr>sent := sent w + 1, trace := trace w @ [Request req]\<rparr> in
      case api w (sent w) of
        Rejected msg \<Rightarrow> (Inl (TransportError msg), w1)
      | HttpResponse ok status responseData \<Rightarrow>
          if \<not> ok then (Inl (HttpError status), console (GraphQLRequestFailedLog status) w1)
          else (case errors responseData of
                  Some errs \<Rightarrow> (Inl GraphQLRequestFailed, console (GraphQLErrorsLog errs) w1)
                | None \<Rightarrow> (Inr responseData, w1)))"

subsection \<open>Pagination\<close>

text \<open>
  \<^verbatim>\<open>fetchAllIssues\<close> and \<^verbatim>\<open>fetchWorkspaceLabels\<close> are the same loop over two queries.
  The loop ends when a page says \<^verbatim>\<open>hasNextPage: false\<close>; against a service that never
  says so it does not return, which is the value \<^term>\<open>None\<close>.
\<close>

partial_function (option) fetchPages ::
  "(world \<Rightarrow> nat \<Rightarrow> 'a page http_response) \<Rightarrow> (string option \<Rightarrow> request) \<Rightarrow> 'a list
   \<Rightarrow> string option \<Rightarrow> world \<Rightarrow> ((error + 'a list) \<times> world) option" where
  "fetchPages api query items cursor w =
     (case fetchWithRetry (graphqlRequest api (query cursor)) RETRY_ATTEMPTS w of
        (Inl e, w1) \<Rightarrow> Some (Inl e, w1)
      | (Inr response, w1) \<Rightarrow>
          (case data response of
             None \<Rightarrow> Some (Inl MissingData, w1)
           | Some pg \<Rightarrow>
               if hasNextPage pg
               then fetchPages api query (items @ nodes pg) (endCursor pg) w1
               else Some (Inr (items @ nodes pg), w1)))"

definition fetchAllIssues :: "world \<Rightarrow> ((error + issue list) \<times> world) option" where
  "fetchAllIssues w = fetchPages issuesResponses IssuesQuery [] None w"

definition fetchWorkspaceLabels :: "world \<Rightarrow> ((error + label list) \<times> world) option" where
  "fetchWorkspaceLabels w = fetchPages labelsResponses WorkspaceLabelsQuery [] None w"

subsection \<open>Updating one issue\<close>

text \<open>\<^verbatim>\<open>updateIssue\<close> catches everything it raises, so it always returns.\<close>

definition updateIssue :: "issue \<Rightarrow> string list \<Rightarrow> world \<Rightarrow> world" where
  "updateIssue issue labelIds w =
     (let w1 = console (NewLabelIds labelIds)
                 (console (CurrentLabels (map label_name (labels issue)))
                   (console (UpdatingIssue issue) w)) in
      case fetchWithRetry
             (graphqlRequest updateResponses (UpdateIssueMutation (issue_id issue) labelIds))
             RETRY_ATTEMPTS w1 of
        (Inl e, w2) \<Rightarrow> console (ErrorUpdating issue e) w2
      | (Inr result, w2) \<Rightarrow>
          (case data result of
             None \<Rightarrow> console (UnexpectedResponse issue) w2
           | Some d \<Rightarrow>
               (case issueUpdate d of
                  None \<Rightarrow> console (UnexpectedResponse issue) w2
                | Some u \<Rightarrow>
                    if success u
                    then console (UpdatedLabels (map label_name (labels (updated u))))
                           (console (SuccessfullyUpdated issue) w2)
                    else console (FailedToUpdate issue) w2)))"

text \<open>\<^verbatim>\<open>updateIssue\<close> of \<^verbatim>\<open>src/sync_v1.mts\<close>: the same function, called with the array the
  lookup-table loop has built.\<close>

definition updateIssue_v1 :: "issue \<Rightarrow> string js list \<Rightarrow> world \<Rightarrow> world" where
  "updateIssue_v1 issue labelIds w =
     (let w1 = console (NewLabelIds_v1 labelIds)
                 (console (CurrentLabels (map label_name (labels issue)))
                   (console (UpdatingIssue issue) w)) in
      case fetchWithRetry
             (graphqlRequest updateResponses (UpdateIssueMutation_v1 (issue_id issue) labelIds))
             RETRY_ATTEMPTS w1 of
        (Inl e, w2) \<Rightarrow> console (ErrorUpdating issue e) w2
      | (Inr result, w2) \<Rightarrow>
          (case data result of
             None \<Rightarrow> console (UnexpectedResponse issue) w2
           | Some d \<Rightarrow>
               (case issueUpdate d of
                  None \<Rightarrow> console (UnexpectedResponse issue) w2
                | Some u \<Rightarrow>
                    if success u
                    then console (UpdatedLabels (map label_name (labels (updated u))))
                           (console (SuccessfullyUpdated issue) w2)
                    else console (FailedToUpdate issue) w2)))"

subsection \<open>Sets, the name-to-id object, array loops\<close>

text \<open>
  A JavaScript \<^verbatim>\<open>Set\<close> keeps its elements in insertion order without repetition: a
  list without duplicates. \<^verbatim>\<open>new Set(xs)\<close> keeps the first occurrence of each element,
  \<^verbatim>\<open>size\<close> is the length and \<^verbatim>\<open>Array.from\<close> the list itself.
\<close>

definition Set_add :: "'a list \<Rightarrow> 'a \<Rightarrow> 'a list" where
  "Set_add s x = (if x \<in> set s then s else s @ [x])"

definition Set_new :: "'a list \<Rightarrow> 'a list" where
  "Set_new xs = foldl Set_add [] xs"

text \<open>
  A plain object (an object literal, or an object that \<^verbatim>\<open>JSON.parse\<close> returns) is the map
  of its own properties, and its prototype is \<^verbatim>\<open>Object.prototype\<close>. The keys of the
  members of \<^verbatim>\<open>Object.prototype\<close> are a fact of the language, not of the repository.
  \<^verbatim>\<open>object[key]\<close> yields the own property when there is one, else the inherited member
  when the key names one, else \<^verbatim>\<open>undefined\<close>.
\<close>

definition objectPrototypeMembers :: "string list" where
  "objectPrototypeMembers =
     [''constructor'', ''__defineGetter__'', ''__defineSetter__'', ''hasOwnProperty'',
      ''__lookupGetter__'', ''__lookupSetter__'', ''isPrototypeOf'', ''propertyIsEnumerable'',
      ''toString'', ''valueOf'', ''__proto__'', ''toLocaleString'']"

definition getProperty :: "(string \<rightharpoonup> 'a) \<Rightarrow> string \<Rightarrow> 'a js" where
  "getProperty own key =
     (case own key of
        Some v \<Rightarrow> Value v
      | None \<Rightarrow> if key \<in> set objectPrototypeMembers then PrototypeMember key else Undefined)"

text \<open>
  \<^verbatim>\<open>workspaceLabels.reduce((acc, label) => { acc[label.name] = label.id; ... }, {})\<close>:
  the own properties of the object that the reduction builds. A later label overwrites
  an earlier one of the same name. An assignment to the key \<^verbatim>\<open>__proto__\<close> runs the setter
  that \<^verbatim>\<open>Object.prototype\<close> defines for it, which ignores a string and creates no
  property.

  The static variant reads this object only under the names that its inference functions
  return. Those begin with \<^verbatim>\<open>[\<close>, so none is the key of an inherited member, and the
  read is the read of the own property (\<open>getProperty_bracketed\<close> below): there the object
  is used as the map itself. The lookup-table variant reads it under names taken from a
  document, through \<open>getProperty\<close>.
\<close>

definition labelNameToId :: "label list \<Rightarrow> (string \<rightharpoonup> string)" where
  "labelNameToId workspaceLabels =
     foldl (\<lambda>acc l. if label_name l = ''__proto__'' then acc
                     else acc(label_name l \<mapsto> label_id l))
       Map.empty workspaceLabels"

text \<open>\<^verbatim>\<open>if (id)\<close> on a looked-up id: \<^verbatim>\<open>undefined\<close> and the empty string are falsy.\<close>

definition truthy :: "string option \<Rightarrow> bool" where
  "truthy x = (case x of None \<Rightarrow> False | Some s \<Rightarrow> s \<noteq> [])"

text \<open>The same test on a value read with \<open>getProperty\<close>: an inherited member is a function
  or an object, which is truthy.\<close>

definition truthy_js :: "string js \<Rightarrow> bool" where
  "truthy_js x = (case x of Undefined \<Rightarrow> False | Value s \<Rightarrow> s \<noteq> [] | PrototypeMember k \<Rightarrow> True)"

text \<open>\<^verbatim>\<open>xs.filter(callback)\<close> where the callback prints and may raise.\<close>

fun arrayFilter ::
  "('a \<Rightarrow> world \<Rightarrow> (error + bool) \<times> world) \<Rightarrow> 'a list \<Rightarrow> world
   \<Rightarrow> (error + 'a list) \<times> world" where
  "arrayFilter callback [] w = (Inr [], w)"
| "arrayFilter callback (x # xs) w =
     (case callback x w of
        (Inl e, w1) \<Rightarrow> (Inl e, w1)
      | (Inr keep, w1) \<Rightarrow>
          (case arrayFilter callback xs w1 of
             (Inl e, w2) \<Rightarrow> (Inl e, w2)
           | (Inr rest, w2) \<Rightarrow> (Inr (if keep then x # rest else rest), w2)))"

text \<open>\<^verbatim>\<open>for (const x of xs) body\<close> where the body has effects and may raise.\<close>

fun forOf ::
  "('a \<Rightarrow> world \<Rightarrow> (error + unit) \<times> world) \<Rightarrow> 'a list \<Rightarrow> world
   \<Rightarrow> (error + unit) \<times> world" where
  "forOf body [] w = (Inr (), w)"
| "forOf body (x # xs) w =
     (case body x w of
        (Inl e, w1) \<Rightarrow> (Inl e, w1)
      | (Inr u, w1) \<Rightarrow> forOf body xs w1)"

subsection \<open>The static variant: plan and apply\<close>

text \<open>The callback of \<^verbatim>\<open>issues.filter\<close> in \<^verbatim>\<open>syncTasks\<close>.\<close>

definition needsUpdate :: "issue \<Rightarrow> world \<Rightarrow> (error + bool) \<times> world" where
  "needsUpdate issue w =
     (case project issue of
        None \<Rightarrow> (Inr False, console (SkippingNoIdentifier issue) w)
      | Some p \<Rightarrow>
          if project_identifier p = []
          then (Inr False, console (SkippingNoIdentifier issue) w)
          else
            (let existingLabelNames = Set_new (map label_name (labels issue)) in
             case inferCoreSystemsLabel (project_identifier p) of
               Inl e \<Rightarrow> (Inl e, w)
             | Inr coreSystemsLabel \<Rightarrow>
                 (case inferCoreAreasLabel (project_identifier p) of
                    Inl e \<Rightarrow> (Inl e, w)
                  | Inr coreAreasLabel \<Rightarrow>
                      (let needs = (coreSystemsLabel \<notin> set existingLabelNames
                                    \<or> coreAreasLabel \<notin> set existingLabelNames)
                       in (Inr needs,
                           if needs then console (IssueNeedsUpdate issue) w else w)))))"

text \<open>The body of the loop over \<^verbatim>\<open>issuesToUpdate\<close> in \<^verbatim>\<open>syncTasks\<close>.\<close>

definition applyIssue :: "(string \<rightharpoonup> string) \<Rightarrow> issue \<Rightarrow> world \<Rightarrow> (error + unit) \<times> world" where
  "applyIssue nameToId issue w =
     (case project issue of
        None \<Rightarrow> (Inr (), w)
      | Some p \<Rightarrow>
          if project_identifier p = [] then (Inr (), w)
          else
            (let existingLabelIds = Set_new (map label_id (labels issue)) in
             case inferCoreSystemsLabel (project_identifier p) of
               Inl e \<Rightarrow> (Inl e, w)
             | Inr coreSystemsLabel \<Rightarrow>
                 (case inferCoreAreasLabel (project_identifier p) of
                    Inl e \<Rightarrow> (Inl e, w)
                  | Inr coreAreasLabel \<Rightarrow>
                      (let coreSystemsLabelId = nameToId coreSystemsLabel;
                           coreAreasLabelId = nameToId coreAreasLabel;
                           newLabelIds1 =
                             (if truthy coreSystemsLabelId
                              then Set_add existingLabelIds (the coreSystemsLabelId)
                              else existingLabelIds);
                           w1 =
                             (if truthy coreSystemsLabelId then w
                              else console (LabelIdNotFound coreSystemsLabel) w);
                           newLabelIds2 =
                             (if truthy coreAreasLabelId
                              then Set_add newLabelIds1 (the coreAreasLabelId)
                              else newLabelIds1);
                           w2 =
                             (if truthy coreAreasLabelId then w1
                              else console (LabelIdNotFound coreAreasLabel) w1);
                           labelIdsToUpdate = newLabelIds2
                       in if length labelIdsToUpdate \<noteq> length existingLabelIds
                          then (Inr (), updateIssue issue labelIdsToUpdate w2)
                          else (Inr (), console (NoLabelChanges issue) w2)))))"

text \<open>\<^verbatim>\<open>syncTasks\<close> of the static variant. The outer \<^verbatim>\<open>try\<close> turns every raise into one
  console line.\<close>

definition syncTasks :: "world \<Rightarrow> world option" where
  "syncTasks w =
     (case fetchAllIssues w of
        None \<Rightarrow> None
      | Some (Inl e, w1) \<Rightarrow> Some (console (ErrorSyncingTasks e) w1)
      | Some (Inr issues, w1) \<Rightarrow>
          (case fetchWorkspaceLabels (console (FetchedIssues (length issues)) w1) of
             None \<Rightarrow> None
           | Some (Inl e, w2) \<Rightarrow> Some (console (ErrorSyncingTasks e) w2)
           | Some (Inr workspaceLabels, w2) \<Rightarrow>
               (let w3 = console (WorkspaceLabelsLog (map label_name workspaceLabels))
                           (console (FetchedWorkspaceLabels (length workspaceLabels)) w2)
                in case arrayFilter needsUpdate issues w3 of
                     (Inl e, w4) \<Rightarrow> Some (console (ErrorSyncingTasks e) w4)
                   | (Inr issuesToUpdate, w4) \<Rightarrow>
                       (case forOf (applyIssue (labelNameToId workspaceLabels)) issuesToUpdate
                               (console (IssuesNeedUpdating (length issuesToUpdate)) w4) of
                          (Inl e, w5) \<Rightarrow> Some (console (ErrorSyncingTasks e) w5)
                        | (Inr u, w5) \<Rightarrow> Some (console TaskSyncCompleted w5)))))"

subsection \<open>The lookup-table variant: plan and apply\<close>

datatype label_group = CoreSystems | CoreAreas

definition LABEL_GROUPS :: "label_group list" where
  "LABEL_GROUPS = [CoreSystems, CoreAreas]"

text \<open>
  \<^verbatim>\<open>projectMapping[group]\<close>, where \<^verbatim>\<open>projectMapping\<close> is what the read of the mapping
  object has yielded. An entry of the document has the two fields of its interface. An
  inherited member of \<^verbatim>\<open>Object.prototype\<close> has no property under either group name, so
  the read yields \<^verbatim>\<open>undefined\<close>, which is \<^term>\<open>None\<close>. The code never reads a group of
  \<^verbatim>\<open>undefined\<close>: it tests \<^verbatim>\<open>!projectMapping\<close> first.
\<close>

definition groupLabel :: "project_label_mapping js \<Rightarrow> label_group \<Rightarrow> string option" where
  "groupLabel projectMapping g =
     (case projectMapping of
        Value entry \<Rightarrow> Some (case g of CoreSystems \<Rightarrow> core_systems entry
                                      | CoreAreas \<Rightarrow> core_areas entry)
      | PrototypeMember k \<Rightarrow> None
      | Undefined \<Rightarrow> None)"

text \<open>A name used as a property key or inside a template literal is converted to a
  string: \<^verbatim>\<open>undefined\<close> becomes the string \<^verbatim>\<open>"undefined"\<close>.\<close>

definition propertyKey :: "string option \<Rightarrow> string" where
  "propertyKey name = (case name of None \<Rightarrow> ''undefined'' | Some s \<Rightarrow> s)"

text \<open>\<^verbatim>\<open>set.has(x)\<close> on a set of strings, where \<^verbatim>\<open>x\<close> may be \<^verbatim>\<open>undefined\<close>: no string is
  \<^verbatim>\<open>undefined\<close>.\<close>

definition Set_has :: "string list \<Rightarrow> string option \<Rightarrow> bool" where
  "Set_has s x = (case x of None \<Rightarrow> False | Some v \<Rightarrow> v \<in> set s)"

text \<open>The result of a step that may end the process (\<^verbatim>\<open>process.exit\<close>).\<close>

datatype 'a completion = ProcessExit nat | Normal 'a

definition loadProjectLabelMappings ::
  "world \<Rightarrow> (string \<rightharpoonup> project_label_mapping) option completion \<times> world" where
  "loadProjectLabelMappings w =
     (case mappingFile w of
        ReadFails \<Rightarrow> (ProcessExit 1, console ErrorLoadingMappings w)
      | ParseFails \<Rightarrow> (ProcessExit 1, console ErrorLoadingMappings w)
      | Parsed m \<Rightarrow> (Normal m, w))"

text \<open>
  The callback of \<^verbatim>\<open>issues.filter\<close>. \<^verbatim>\<open>PROJECT_LABEL_MAPPING\<close> is the field of the parsed
  document, given by its own properties; indexing it when it is \<^verbatim>\<open>undefined\<close> raises a
  \<^verbatim>\<open>TypeError\<close>. \<^verbatim>\<open>!projectMapping\<close> is true for \<^verbatim>\<open>undefined\<close> only: an entry and an
  inherited member are objects.
\<close>

definition needsUpdate_v1 ::
  "(string \<rightharpoonup> project_label_mapping) option \<Rightarrow> issue \<Rightarrow> world \<Rightarrow> (error + bool) \<times> world" where
  "needsUpdate_v1 PROJECT_LABEL_MAPPING issue w =
     (case project issue of
        None \<Rightarrow> (Inr False, console (SkippingNoProject issue) w)
      | Some p \<Rightarrow>
          (case PROJECT_LABEL_MAPPING of
             None \<Rightarrow> (Inl TypeError, w)
           | Some mapping \<Rightarrow>
               (let projectMapping = getProperty mapping (project_name p) in
                if projectMapping = Undefined
                then (Inr False, console (SkippingNotInMapping issue) w)
                else
                  (let existingLabelNames = Set_new (map label_name (labels issue));
                       needs = list_ex (\<lambda>g. \<not> Set_has existingLabelNames
                                                  (groupLabel projectMapping g)) LABEL_GROUPS
                   in (Inr needs,
                       if needs then console (IssueNeedsUpdate issue) w else w)))))"

text \<open>One round of the inner loop over \<^verbatim>\<open>LABEL_GROUPS\<close>. \<^verbatim>\<open>labelNameToId\<close> is given by
  its own properties and read as a plain object.\<close>

definition addRequired ::
  "(string \<rightharpoonup> string) \<Rightarrow> project_label_mapping js \<Rightarrow> string js list \<times> world \<Rightarrow> label_group
   \<Rightarrow> string js list \<times> world" where
  "addRequired nameToId projectMapping acc g =
     (let requiredLabelName = groupLabel projectMapping g;
          requiredLabelId = getProperty nameToId (propertyKey requiredLabelName)
      in if truthy_js requiredLabelId
         then (Set_add (fst acc) requiredLabelId, snd acc)
         else (fst acc,
               console (RequiredLabelNotFound (propertyKey requiredLabelName)) (snd acc)))"

text \<open>The body of the loop over \<^verbatim>\<open>issuesToUpdate\<close>.\<close>

definition applyIssue_v1 ::
  "(string \<rightharpoonup> project_label_mapping) option \<Rightarrow> (string \<rightharpoonup> string) \<Rightarrow> issue \<Rightarrow> world
   \<Rightarrow> (error + unit) \<times> world" where
  "applyIssue_v1 PROJECT_LABEL_MAPPING nameToId issue w =
     (case project issue of
        None \<Rightarrow> (Inr (), w)
      | Some p \<Rightarrow>
          (case PROJECT_LABEL_MAPPING of
             None \<Rightarrow> (Inl TypeError, w)
           | Some mapping \<Rightarrow>
               (let projectMapping = getProperty mapping (project_name p) in
                if projectMapping = Undefined then (Inr (), w)
                else
                  (let existingLabelIds = Set_new (map (\<lambda>l. Value (label_id l)) (labels issue));
                       r = foldl (addRequired nameToId projectMapping)
                             (existingLabelIds, w) LABEL_GROUPS;
                       labelIdsToUpdate = fst r
                   in if length labelIdsToUpdate \<noteq> length existingLabelIds
                      then (Inr (), updateIssue_v1 issue labelIdsToUpdate (snd r))
                      else (Inr (), console (NoLabelChanges issue) (snd r))))))"

text \<open>\<^verbatim>\<open>syncTasks\<close> of the lookup-table variant. The mapping document is loaded after
  both fetches.\<close>

definition syncTasks_v1 :: "world \<Rightarrow> (unit completion \<times> world) option" where
  "syncTasks_v1 w =
     (case fetchAllIssues w of
        None \<Rightarrow> None
      | Some (Inl e, w1) \<Rightarrow> Some (Normal (), console (ErrorSyncingTasks e) w1)
      | Some (Inr issues, w1) \<Rightarrow>
          (case fetchWorkspaceLabels (console (FetchedIssues (length issues)) w1) of
             None \<Rightarrow> None
           | Some (Inl e, w2) \<Rightarrow> Some (Normal (), console (ErrorSyncingTasks e) w2)
           | Some (Inr workspaceLabels, w2) \<Rightarrow>
               (case loadProjectLabelMappings
                       (console (FetchedWorkspaceLabels (length workspaceLabels)) w2) of
                  (ProcessExit n, w3) \<Rightarrow> Some (ProcessExit n, w3)
                | (Normal PROJECT_LABEL_MAPPING, w3) \<Rightarrow>
                    (let w4 = foldl (\<lambda>v l. console (WorkspaceLabelLine l) v)
                                (console WorkspaceLabelsHeader w3) workspaceLabels
                     in case arrayFilter (needsUpdate_v1 PROJECT_LABEL_MAPPING) issues w4 of
                          (Inl e, w5) \<Rightarrow> Some (Normal (), console (ErrorSyncingTasks e) w5)
                        | (Inr issuesToUpdate, w5) \<Rightarrow>
                            (case forOf (applyIssue_v1 PROJECT_LABEL_MAPPING
                                          (labelNameToId workspaceLabels)) issuesToUpdate
                                    (console (IssuesNeedUpdating (length issuesToUpdate)) w5) of
                               (Inl e, w6) \<Rightarrow>
                                 Some (Normal (), console (ErrorSyncingTasks e) w6)
                             | (Inr u, w6) \<Rightarrow>
                                 Some (Normal (), console TaskSyncCompleted w6))))))"

subsection \<open>The entry point of the static variant\<close>

text \<open>
  The module body of the static variant: without \<^verbatim>\<open>LINEAR_API_KEY\<close> the process prints
  one line and exits with status 1; otherwise \<^verbatim>\<open>syncTasks()\<close> is called twice. Neither
  call is awaited, so the two passes run interleaved. They share no variable of the
  program, so each pass is a run of \<open>syncTasks\<close> against its own view of the service: the
  stream of responses to its own requests, and its own trace. The order in which the two
  traces interleave is not modelled.
\<close>

definition main ::
  "string option \<Rightarrow> world \<Rightarrow> world \<Rightarrow> world option list completion \<times> console list" where
  "main LINEAR_API_KEY w1 w2 =
     (if \<not> truthy LINEAR_API_KEY then (ProcessExit 1, [ApiKeyNotSet])
      else (Normal [syncTasks w1, syncTasks w2], []))"

declare fetchPages.simps [code]

subsection \<open>Reading a trace\<close>

text \<open>The requests of a trace in the order they were sent, and the number of delays.\<close>

fun requestsOf :: "event list \<Rightarrow> request list" where
  "requestsOf [] = []"
| "requestsOf (Request r # es) = r # requestsOf es"
| "requestsOf (Delay ms # es) = requestsOf es"
| "requestsOf (Console l # es) = requestsOf es"

fun delays :: "event list \<Rightarrow> nat" where
  "delays [] = 0"
| "delays (Delay ms # es) = Suc (delays es)"
| "delays (Request r # es) = delays es"
| "delays (Console l # es) = delays es"

fun isUpdate :: "request \<Rightarrow> bool" where
  "isUpdate (UpdateIssueMutation i ids) = True"
| "isUpdate (UpdateIssueMutation_v1 i ids) = True"
| "isUpdate (IssuesQuery c) = False"
| "isUpdate (WorkspaceLabelsQuery c) = False"

text \<open>The update requests of a trace, and the requests sent between two worlds of one
  run.\<close>

definition updateRequests :: "event list \<Rightarrow> request list" where
  "updateRequests es = filter isUpdate (requestsOf es)"

definition requestsDuring :: "world \<Rightarrow> world \<Rightarrow> request list" where
  "requestsDuring w w' = drop (length (requestsOf (trace w))) (requestsOf (trace w'))"

subsection \<open>The retry contract, in the words of the specification\<close>

text \<open>
  \<open>beforeAttempt operation attempts w j\<close> is the world in which attempt \<open>j + 1\<close> starts
  when the \<open>j\<close> attempts before it failed: after each failure one console line and one
  delay. \<open>attempt operation attempts w k\<close> is the outcome of attempt \<open>k\<close>, counted from 1.
\<close>

fun beforeAttempt ::
  "(world \<Rightarrow> (error + 'a) \<times> world) \<Rightarrow> int \<Rightarrow> world \<Rightarrow> nat \<Rightarrow> world" where
  "beforeAttempt operation attempts w 0 = w"
| "beforeAttempt operation attempts w (Suc j) =
     setTimeout RETRY_DELAY
       (console (RetryingOperation (attempts - int j - 1))
         (snd (operation (beforeAttempt operation attempts w j))))"

definition attempt ::
  "(world \<Rightarrow> (error + 'a) \<times> world) \<Rightarrow> int \<Rightarrow> world \<Rightarrow> nat \<Rightarrow> (error + 'a) \<times> world" where
  "attempt operation attempts w k = operation (beforeAttempt operation attempts w (k - 1))"

subsection \<open>The plan, in the words of the specification\<close>

text \<open>
  The definitions of this section are not code of the repository. They name what the
  specification talks about, so that the theorems can say what the code computes.
  \<^item> \<open>sends w w' rs\<close>: the trace of \<open>w'\<close> extends the trace of \<open>w\<close>, and the requests of
    the extension are \<open>rs\<close>.
  \<^item> \<open>existingIds\<close>: the set of the label ids of an issue, as the loop body builds it.
  \<^item> \<open>plannedLabelIds\<close>: the target list: the existing ids, then the id of each required
    name that the name-to-id object resolves to a non-empty id.
  \<^item> \<open>foundIds\<close>: the set of those resolved ids.
  \<^item> \<open>warnMissing\<close>: one console line per required name that is not resolved.
  \<^item> \<open>requiredNames\<close>: the two required label names of an issue with a resolvable
    project, under the static strategy; \<open>None\<close> for an issue without one.
  \<^item> \<open>missesRequired\<close>: some required name is not among the issue's label names.
  \<^item> \<open>reconcile\<close>: one round of the apply loop, given the required names.
  \<^item> \<open>submits\<close>: the target list and the existing list differ in length.
  \<^item> \<open>updateOf\<close>: the update request for an issue with its target list.
  \<^item> \<open>updateOutcome\<close>: the result of the retried request inside \<open>updateIssue\<close>.

  The names that end in \<open>_v1\<close> are the same notions for the lookup-table variant, whose
  objects are read with \<open>getProperty\<close>.
  \<^item> \<open>requiredNames_v1\<close>: the two required label names of an issue whose project name
    the mapping object resolves. A project name that is a key of the document gives the
    two names of its entry. A project name that is not a key of the document but the key
    of a member of \<^verbatim>\<open>Object.prototype\<close> resolves to that member, and both names are
    \<^verbatim>\<open>undefined\<close>. \<open>None\<close> for an issue without a project or with a project name that
    resolves to nothing.
  \<^item> \<open>missesRequired_v1\<close>: some required name is not among the issue's label names;
    \<^verbatim>\<open>undefined\<close> is never among them.
  \<^item> \<open>existingIds_v1\<close>, \<open>plannedLabelIds_v1\<close>: the existing and the target list as
    lists of values: the target holds, after the existing ids, what the name-to-id
    object yields for each required name when that is truthy.
  \<^item> \<open>warnMissing_v1\<close>, \<open>reconcile_v1\<close>, \<open>submits_v1\<close>, \<open>updateOf_v1\<close>: as above.
\<close>

definition sends :: "world \<Rightarrow> world \<Rightarrow> request list \<Rightarrow> bool" where
  "sends w w' rs = (\<exists>es. trace w' = trace w @ es \<and> requestsOf es = rs)"

definition existingIds :: "issue \<Rightarrow> string list" where
  "existingIds issue = Set_new (map label_id (labels issue))"

definition plannedLabelIds :: "(string \<rightharpoonup> string) \<Rightarrow> issue \<Rightarrow> string list \<Rightarrow> string list" where
  "plannedLabelIds nameToId issue names =
     foldl (\<lambda>s n. if truthy (nameToId n) then Set_add s (the (nameToId n)) else s)
       (existingIds issue) names"

definition foundIds :: "(string \<rightharpoonup> string) \<Rightarrow> string list \<Rightarrow> string set" where
  "foundIds nameToId names = set (map (\<lambda>n. the (nameToId n)) (filter (\<lambda>n. truthy (nameToId n)) names))"

definition warnMissing :: "(string \<Rightarrow> console) \<Rightarrow> (string \<rightharpoonup> string) \<Rightarrow> string list \<Rightarrow> world \<Rightarrow> world" where
  "warnMissing warn nameToId names w =
     foldl (\<lambda>v n. if truthy (nameToId n) then v else console (warn n) v) w names"

definition requiredNames :: "issue \<Rightarrow> string list option" where
  "requiredNames issue =
     (case project issue of
        None \<Rightarrow> None
      | Some p \<Rightarrow>
          if project_identifier p = [] then None
          else (case (inferCoreSystemsLabel (project_identifier p),
                      inferCoreAreasLabel (project_identifier p)) of
                  (Inr s, Inr a) \<Rightarrow> Some [s, a]
                | _ \<Rightarrow> None))"

definition requiredNames_v1 ::
  "(string \<rightharpoonup> project_label_mapping) \<Rightarrow> issue \<Rightarrow> string option list option" where
  "requiredNames_v1 mapping issue =
     (case project issue of
        None \<Rightarrow> None
      | Some p \<Rightarrow>
          (case getProperty mapping (project_name p) of
             Undefined \<Rightarrow> None
           | Value entry \<Rightarrow> Some [Some (core_systems entry), Some (core_areas entry)]
           | PrototypeMember k \<Rightarrow> Some [None, None]))"

definition missesRequired :: "string list option \<Rightarrow> issue \<Rightarrow> bool" where
  "missesRequired req issue =
     (case req of
        None \<Rightarrow> False
      | Some names \<Rightarrow> list_ex (\<lambda>n. n \<notin> set (map label_name (labels issue))) names)"

definition missesRequired_v1 :: "string option list option \<Rightarrow> issue \<Rightarrow> bool" where
  "missesRequired_v1 req issue =
     (case req of
        None \<Rightarrow> False
      | Some names \<Rightarrow>
          list_ex (\<lambda>n. case n of None \<Rightarrow> True
                             | Some s \<Rightarrow> s \<notin> set (map label_name (labels issue))) names)"

definition reconcile ::
  "(string \<Rightarrow> console) \<Rightarrow> (string \<rightharpoonup> string) \<Rightarrow> issue \<Rightarrow> string list option \<Rightarrow> world \<Rightarrow> world" where
  "reconcile warn nameToId issue req w =
     (case req of
        None \<Rightarrow> w
      | Some names \<Rightarrow>
          (let target = plannedLabelIds nameToId issue names;
               w2 = warnMissing warn nameToId names w
           in if length target \<noteq> length (existingIds issue)
              then updateIssue issue target w2
              else console (NoLabelChanges issue) w2))"

definition submits :: "(string \<rightharpoonup> string) \<Rightarrow> issue \<Rightarrow> string list option \<Rightarrow> bool" where
  "submits nameToId issue req =
     (case req of
        None \<Rightarrow> False
      | Some names \<Rightarrow> length (plannedLabelIds nameToId issue names) \<noteq> length (existingIds issue))"

definition updateOf :: "(string \<rightharpoonup> string) \<Rightarrow> issue \<Rightarrow> string list option \<Rightarrow> request" where
  "updateOf nameToId issue req =
     UpdateIssueMutation (issue_id issue)
       (case req of None \<Rightarrow> existingIds issue | Some names \<Rightarrow> plannedLabelIds nameToId issue names)"

definition updateOutcome ::
  "issue \<Rightarrow> string list \<Rightarrow> world \<Rightarrow> (error + update_data graphql_response) \<times> world" where
  "updateOutcome issue labelIds w =
     fetchWithRetry
       (graphqlRequest updateResponses (UpdateIssueMutation (issue_id issue) labelIds))
       RETRY_ATTEMPTS
       (console (NewLabelIds labelIds)
         (console (CurrentLabels (map label_name (labels issue)))
           (console (UpdatingIssue issue) w)))"

definition existingIds_v1 :: "issue \<Rightarrow> string js list" where
  "existingIds_v1 issue = Set_new (map (\<lambda>l. Value (label_id l)) (labels issue))"

definition plannedLabelIds_v1 ::
  "(string \<rightharpoonup> string) \<Rightarrow> issue \<Rightarrow> string option list \<Rightarrow> string js list" where
  "plannedLabelIds_v1 nameToId issue names =
     foldl (\<lambda>s n. if truthy_js (getProperty nameToId (propertyKey n))
                   then Set_add s (getProperty nameToId (propertyKey n)) else s)
       (existingIds_v1 issue) names"

definition warnMissing_v1 :: "(string \<rightharpoonup> string) \<Rightarrow> string option list \<Rightarrow> world \<Rightarrow> world" where
  "warnMissing_v1 nameToId names w =
     foldl (\<lambda>v n. if truthy_js (getProperty nameToId (propertyKey n)) then v
                   else console (RequiredLabelNotFound (propertyKey n)) v) w names"

definition reconcile_v1 ::
  "(string \<rightharpoonup> string) \<Rightarrow> issue \<Rightarrow> string option list option \<Rightarrow> world \<Rightarrow> world" where
  "reconcile_v1 nameToId issue req w =
     (case req of
        None \<Rightarrow> w
      | Some names \<Rightarrow>
          (let target = plannedLabelIds_v1 nameToId issue names;
               w2 = warnMissing_v1 nameToId names w
           in if length target \<noteq> length (existingIds_v1 issue)
              then updateIssue_v1 issue target w2
              else console (NoLabelChanges issue) w2))"

definition submits_v1 :: "(string \<rightharpoonup> string) \<Rightarrow> issue \<Rightarrow> string option list option \<Rightarrow> bool" where
  "submits_v1 nameToId issue req =
     (case req of
        None \<Rightarrow> False
      | Some names \<Rightarrow>
          length (plannedLabelIds_v1 nameToId issue names) \<noteq> length (existingIds_v1 issue))"

definition updateOf_v1 ::
  "(string \<rightharpoonup> string) \<Rightarrow> issue \<Rightarrow> string option list option \<Rightarrow> request" where
  "updateOf_v1 nameToId issue req =
     UpdateIssueMutation_v1 (issue_id issue)
       (case req of None \<Rightarrow> existingIds_v1 issue
                  | Some names \<Rightarrow> plannedLabelIds_v1 nameToId issue names)"

subsection \<open>Example data\<close>

text \<open>
  Example data: a workspace with the labels \<^verbatim>\<open>[100-199]\<close> and \<^verbatim>\<open>[50]\<close>, and issues
  of a project with identifier \<^verbatim>\<open>150.2\<close> that carry none, one or both of them.
\<close>

definition ex_system_label :: label where
  "ex_system_label = \<lparr>label_id = ''L1'', label_name = ''[100-199]''\<rparr>"

definition ex_area_label :: label where
  "ex_area_label = \<lparr>label_id = ''L2'', label_name = ''[50]''\<rparr>"

definition ex_bug_label :: label where
  "ex_bug_label = \<lparr>label_id = ''L9'', label_name = ''bug''\<rparr>"

definition ex_issue :: issue where
  "ex_issue =
     \<lparr>issue_id = ''i1'', title = ''Fix login'', issue_identifier = ''ENG-1'',
      labels = [ex_bug_label],
      project = Some \<lparr>project_id = ''p1'', project_name = ''Core'',
                      project_identifier = ''150.2''\<rparr>,
      team = \<lparr>team_id = ''t1'', team_name = ''Eng''\<rparr>\<rparr>"

definition ex_partial_issue :: issue where
  "ex_partial_issue = ex_issue\<lparr>issue_id := ''i3'', labels := [ex_system_label]\<rparr>"

definition ex_labelled_issue :: issue where
  "ex_labelled_issue = ex_issue\<lparr>issue_id := ''i2'', labels := [ex_system_label, ex_area_label]\<rparr>"

definition ex_mapping :: "string \<rightharpoonup> project_label_mapping" where
  "ex_mapping = [''Core'' \<mapsto> \<lparr>core_systems = ''[100-199]'', core_areas = ''[50]''\<rparr>]"

text \<open>
  A mapping document whose entry for \<^verbatim>\<open>Core\<close> names the system label \<^verbatim>\<open>toString\<close>, and
  an issue of a project named \<^verbatim>\<open>constructor\<close>, which is not a key of either document.
\<close>

definition ex_member_mapping :: "string \<rightharpoonup> project_label_mapping" where
  "ex_member_mapping = [''Core'' \<mapsto> \<lparr>core_systems = ''toString'', core_areas = ''[50]''\<rparr>]"

definition ex_member_issue :: issue where
  "ex_member_issue =
     ex_issue\<lparr>issue_id := ''i4'',
              project := Some \<lparr>project_id = ''p2'', project_name = ''constructor'',
                               project_identifier = []\<rparr>\<rparr>"

definition ok_response :: "'a \<Rightarrow> 'a http_response" where
  "ok_response d = HttpResponse True 200 \<lparr>data = Some d, errors = None\<rparr>"

definition failed_response :: "nat \<Rightarrow> 'a http_response" where
  "failed_response code = HttpResponse False code \<lparr>data = None, errors = None\<rparr>"

definition ex_update_data :: update_data where
  "ex_update_data = \<lparr>issueUpdate = Some \<lparr>success = True, updated = ex_labelled_issue\<rparr>\<rparr>"

text \<open>
  A service that answers both listings with one page and fails the first three update
  requests (requests 2, 3 and 4 of a run), and variants of it: the issue listing down,
  the label listing down, an update that succeeds at the third attempt, an update that
  the service answers with \<^verbatim>\<open>success: false\<close>.
\<close>

definition ex_world :: world where
  "ex_world =
     \<lparr>issuesResponses = (\<lambda>n. ok_response
          \<lparr>nodes = [ex_issue, ex_partial_issue, ex_labelled_issue],
           hasNextPage = False, endCursor = None\<rparr>),
      labelsResponses = (\<lambda>n. ok_response
          \<lparr>nodes = [ex_system_label, ex_area_label], hasNextPage = False, endCursor = None\<rparr>),
      updateResponses = (\<lambda>n. if n < 5 then failed_response (500 + n)
                               else ok_response ex_update_data),
      mappingFile = ReadFails,
      sent = 0,
      trace = []\<rparr>"

definition ex_issues_down :: world where
  "ex_issues_down = ex_world\<lparr>issuesResponses := (\<lambda>n. failed_response 503)\<rparr>"

definition ex_labels_down :: world where
  "ex_labels_down = ex_world\<lparr>labelsResponses := (\<lambda>n. failed_response 502)\<rparr>"

definition ex_flaky :: world where
  "ex_flaky = ex_world\<lparr>updateResponses := (\<lambda>n. if n < 2 then failed_response 503
                                                 else ok_response ex_update_data)\<rparr>"

definition ex_operation :: "world \<Rightarrow> (error + update_data graphql_response) \<times> world" where
  "ex_operation = graphqlRequest updateResponses (UpdateIssueMutation ''i1'' [''L9'', ''L1''])"

definition ex_one_label_map :: "string \<rightharpoonup> string" where
  "ex_one_label_map = labelNameToId [ex_system_label]"

text \<open>Worlds whose mapping document is read: the document of the examples, and the
  document that names the label \<^verbatim>\<open>toString\<close> in a workspace with the area label only.\<close>

definition ex_lookup_world :: world where
  "ex_lookup_world = ex_flaky\<lparr>mappingFile := Parsed (Some ex_mapping)\<rparr>"

definition ex_member_world :: world where
  "ex_member_world =
     ex_world\<lparr>issuesResponses := (\<lambda>n. ok_response
                   \<lparr>nodes = [ex_issue], hasNextPage = False, endCursor = None\<rparr>),
               labelsResponses := (\<lambda>n. ok_response
                   \<lparr>nodes = [ex_area_label], hasNextPage = False, endCursor = None\<rparr>),
               updateResponses := (\<lambda>n. ok_response ex_update_data),
               mappingFile := Parsed (Some ex_member_mapping)\<rparr>"

definition ex_refused :: world where
  "ex_refused = ex_world\<lparr>updateResponses :=
     (\<lambda>n. ok_response \<lparr>issueUpdate = Some \<lparr>success = False, updated = ex_issue\<rparr>\<rparr>)\<rparr>"

subsection \<open>Facts about \<open>parseInt\<close>\<close>

lemma split_first: "split CHR ''.'' s = firstSegment s # tl (split CHR ''.'' s)"
  by (induction s) (auto simp: firstSegment_def split: list.splits)

text \<open>Digits of radix 10.\<close>

lemma digitValue_10:
  "digitValue 10 c = (if isDigit c then Some ((of_char c :: nat) - 48) else None)"
  by (simp add: digitValue_def isDigit_def Let_def)

lemma digitsValue_decimal_gen:
  "\<forall>c \<in> set z. isDigit c \<Longrightarrow>
   foldl (\<lambda>acc c. acc * 10 + the (digitValue 10 c)) a z =
   foldl (\<lambda>acc c. acc * 10 + ((of_char c :: nat) - 48)) a z"
  by (induction z arbitrary: a) (simp_all add: digitValue_10)

lemma digitsValue_decimal:
  "\<forall>c \<in> set z. isDigit c \<Longrightarrow> digitsValue 10 z = spec_decimal z"
  unfolding digitsValue_def spec_decimal_def by (rule digitsValue_decimal_gen)

lemma isDigit_not_space: "isDigit c \<Longrightarrow> \<not> isWhiteSpace c"
  by (auto simp: isDigit_def isWhiteSpace_def)

lemma isDigit_not_sign: "isDigit c \<Longrightarrow> c \<noteq> CHR ''+'' \<and> c \<noteq> CHR ''-''"
  by (auto simp: isDigit_def)

lemma parseInt_digits:
  assumes "takeWhile isDigit t \<noteq> []" and "\<not> hexPrefix t"
  shows "parseInt t = Some (int (spec_decimal (takeWhile isDigit t)))"
proof -
  from assms(1) obtain c cs where t: "t = c # cs" and c: "isDigit c"
    by (cases t) (auto split: if_splits)
  have s0: "dropWhile isWhiteSpace t = t"
    using t c by (simp add: isDigit_not_space)
  have tw: "takeWhile (\<lambda>c. digitValue 10 c \<noteq> None) t = takeWhile isDigit t"
    by (rule arg_cong [where f = "\<lambda>p. takeWhile p t"]) (auto simp: digitValue_10)
  have all: "\<forall>c \<in> set (takeWhile isDigit t). isDigit c"
    by (auto dest: set_takeWhileD)
  show ?thesis
    unfolding parseInt_def s0 Let_def
    using assms t c isDigit_not_sign [OF c] tw digitsValue_decimal [OF all]
    by simp
qed

lemma toString_int: "toString (Some (int m)) = natToString m"
  by (simp add: toString_def)

text \<open>The definitions that evaluate the string functions on a literal.\<close>

lemmas js_defs =
  inferCoreSystemsLabel_def inferCoreAreasLabel_def parseInt_def substring_def slice_def
  isWhiteSpace_def isDigit_def hexPrefix_def digitValue_def digitsValue_def
  floorHundred_def plus99_def toString_def padStart_def firstSegment_def
  spec_decimal_def spec_zero_padded_3_def spec_system_label_def

subsection \<open>Facts about traces\<close>

lemma requestsOf_append: "requestsOf (xs @ ys) = requestsOf xs @ requestsOf ys"
  by (induction xs rule: requestsOf.induct) simp_all

lemma delays_append: "delays (xs @ ys) = delays xs + delays ys"
  by (induction xs rule: delays.induct) simp_all

lemma trace_console: "trace (console l w) = trace w @ [Console l]"
  by (simp add: console_def)

lemma trace_setTimeout: "trace (setTimeout ms w) = trace w @ [Delay ms]"
  by (simp add: setTimeout_def)

subsection \<open>Facts about the retry wrapper\<close>

text \<open>After \<open>m\<close> failed attempts, with budget left, the wrapper stands before attempt
  \<open>m + 1\<close> with the budget reduced by \<open>m\<close>.\<close>

lemma fetchWithRetry_skip:
  assumes "\<forall>j<m. isl (fst (operation (beforeAttempt operation attempts w j)))"
    and "int m < attempts"
  shows "fetchWithRetry operation attempts w =
         fetchWithRetry operation (attempts - int m) (beforeAttempt operation attempts w m)"
  using assms
proof (induction m)
  case 0
  then show ?case by simp
next
  case (Suc m)
  then have ih: "fetchWithRetry operation attempts w =
      fetchWithRetry operation (attempts - int m) (beforeAttempt operation attempts w m)"
    by simp
  from Suc.prems have "isl (fst (operation (beforeAttempt operation attempts w m)))"
    by simp
  then obtain e v where op: "operation (beforeAttempt operation attempts w m) = (Inl e, v)"
    by (cases "operation (beforeAttempt operation attempts w m)") (auto simp: isl_def)
  have gt: "\<not> attempts - int m \<le> 1"
    using Suc.prems(2) by simp
  show ?case
    unfolding ih
    apply (subst fetchWithRetry.simps)
    using op gt by (simp add: algebra_simps)
qed

lemma delays_beforeAttempt:
  assumes "\<forall>v. delays (trace (snd (operation v))) = delays (trace v)"
  shows "delays (trace (beforeAttempt operation attempts w m)) = delays (trace w) + m"
  using assms
  by (induction m) (simp_all add: trace_console trace_setTimeout delays_append)

subsection \<open>What each operation sends\<close>

lemma sends_refl: "sends w w []"
  by (simp add: sends_def)

lemma sends_trans: "sends w w1 rs \<Longrightarrow> sends w1 w2 rs' \<Longrightarrow> sends w w2 (rs @ rs')"
  by (auto simp: sends_def requestsOf_append)

lemma sends_console: "sends w (console l w) []"
  by (simp add: sends_def trace_console)

lemma sends_setTimeout: "sends w (setTimeout ms w) []"
  by (simp add: sends_def trace_setTimeout)

lemma sends_console': "sends w w1 rs \<Longrightarrow> sends w (console l w1) rs"
  using sends_trans [OF _ sends_console] by fastforce

lemma sends_setTimeout': "sends w w1 rs \<Longrightarrow> sends w (setTimeout ms w1) rs"
  using sends_trans [OF _ sends_setTimeout] by fastforce

lemma sends_requestsDuring: "sends w w' rs \<Longrightarrow> requestsDuring w w' = rs"
  by (auto simp: sends_def requestsDuring_def requestsOf_append)

lemma sends_requestsOf: "sends w w' rs \<Longrightarrow> requestsOf (trace w') = requestsOf (trace w) @ rs"
  by (auto simp: sends_def requestsOf_append)

lemma sends_graphqlRequest: "sends w (snd (graphqlRequest api r w)) [r]"
  by (auto simp: sends_def graphqlRequest_def Let_def trace_console
           split: http_response.splits option.splits)

lemma sends_fetchWithRetry:
  "\<exists>k. sends w (snd (fetchWithRetry (graphqlRequest api r) attempts w)) (replicate (Suc k) r)"
proof (induction "graphqlRequest api r" attempts w rule: fetchWithRetry.induct)
  case (1 attempts w)
  obtain res w1 where g: "graphqlRequest api r w = (res, w1)"
    by (cases "graphqlRequest api r w")
  have s1: "sends w w1 [r]"
    using sends_graphqlRequest [of w api r] g by simp
  show ?case
  proof (cases res)
    case (Inr v)
    then have "fetchWithRetry (graphqlRequest api r) attempts w = (Inr v, w1)"
      by (subst fetchWithRetry.simps) (simp add: g)
    then show ?thesis using s1 by (intro exI [of _ 0]) simp
  next
    case (Inl e)
    show ?thesis
    proof (cases "attempts \<le> 1")
      case True
      then have "fetchWithRetry (graphqlRequest api r) attempts w = (Inl e, w1)"
        by (subst fetchWithRetry.simps) (simp add: g Inl)
      then show ?thesis using s1 by (intro exI [of _ 0]) simp
    next
      case False
      let ?w2 = "setTimeout RETRY_DELAY (console (RetryingOperation (attempts - 1)) w1)"
      have eq: "fetchWithRetry (graphqlRequest api r) attempts w =
            fetchWithRetry (graphqlRequest api r) (attempts - 1) ?w2"
        by (subst fetchWithRetry.simps) (simp add: g Inl False)
      from "1" [OF g [symmetric] Inl False]
      obtain k where ih: "sends ?w2
          (snd (fetchWithRetry (graphqlRequest api r) (attempts - 1) ?w2)) (replicate (Suc k) r)"
        by blast
      have "sends w ?w2 [r]"
        using s1 by (intro sends_setTimeout' sends_console')
      from sends_trans [OF this ih] show ?thesis
        unfolding eq by (intro exI [of _ "Suc k"]) simp
    qed
  qed
qed

lemma sends_updateIssue:
  "\<exists>k. sends w (updateIssue issue ids w) (replicate (Suc k) (UpdateIssueMutation (issue_id issue) ids))"
proof -
  let ?w1 = "console (NewLabelIds ids)
                 (console (CurrentLabels (map label_name (labels issue)))
                   (console (UpdatingIssue issue) w))"
  let ?r = "UpdateIssueMutation (issue_id issue) ids"
  obtain k where k: "sends ?w1 (snd (fetchWithRetry (graphqlRequest updateResponses ?r) RETRY_ATTEMPTS ?w1)) (replicate (Suc k) ?r)"
    using sends_fetchWithRetry by blast
  have a: "sends w ?w1 []"
    by (intro sends_console' sends_refl)
  have b: "sends w (snd (fetchWithRetry (graphqlRequest updateResponses ?r) RETRY_ATTEMPTS ?w1)) (replicate (Suc k) ?r)"
    using sends_trans [OF a k] by simp
  have "sends w (updateIssue issue ids w) (replicate (Suc k) ?r)"
    unfolding updateIssue_def Let_def
    using b
    by (auto split: prod.splits sum.splits option.splits intro!: sends_console')
  then show ?thesis by blast
qed

lemma sends_updateIssue_v1:
  "\<exists>k. sends w (updateIssue_v1 issue ids w)
         (replicate (Suc k) (UpdateIssueMutation_v1 (issue_id issue) ids))"
proof -
  let ?w1 = "console (NewLabelIds_v1 ids)
                 (console (CurrentLabels (map label_name (labels issue)))
                   (console (UpdatingIssue issue) w))"
  let ?r = "UpdateIssueMutation_v1 (issue_id issue) ids"
  obtain k where k: "sends ?w1 (snd (fetchWithRetry (graphqlRequest updateResponses ?r) RETRY_ATTEMPTS ?w1)) (replicate (Suc k) ?r)"
    using sends_fetchWithRetry by blast
  have a: "sends w ?w1 []"
    by (intro sends_console' sends_refl)
  have b: "sends w (snd (fetchWithRetry (graphqlRequest updateResponses ?r) RETRY_ATTEMPTS ?w1)) (replicate (Suc k) ?r)"
    using sends_trans [OF a k] by simp
  have "sends w (updateIssue_v1 issue ids w) (replicate (Suc k) ?r)"
    unfolding updateIssue_v1_def Let_def
    using b
    by (auto split: prod.splits sum.splits option.splits intro!: sends_console')
  then show ?thesis by blast
qed

subsection \<open>Facts about plain objects\<close>

text \<open>No key of a member of \<^verbatim>\<open>Object.prototype\<close> begins with a bracket, and the labels that
  the static inference returns do: the static variant reads own properties only.\<close>

lemma getProperty_bracketed:
  "getProperty own (CHR ''['' # name) = (case own (CHR ''['' # name) of None \<Rightarrow> Undefined | Some v \<Rightarrow> Value v)"
  by (simp add: getProperty_def objectPrototypeMembers_def split: option.splits)

lemma inferCoreSystemsLabel_bracketed:
  "inferCoreSystemsLabel s = Inr l \<Longrightarrow> \<exists>name. l = CHR ''['' # name"
  by (auto simp: inferCoreSystemsLabel_def Let_def split: if_splits list.splits)

lemma inferCoreAreasLabel_bracketed:
  "inferCoreAreasLabel s = Inr l \<Longrightarrow> \<exists>name. l = CHR ''['' # name"
  by (auto simp: inferCoreAreasLabel_def Let_def split: if_splits list.splits)

lemma getProperty_own:
  "key \<notin> set objectPrototypeMembers \<Longrightarrow>
   getProperty own key = (case own key of None \<Rightarrow> Undefined | Some v \<Rightarrow> Value v)"
  by (simp add: getProperty_def split: option.splits)

lemma truthy_js_own:
  "key \<notin> set objectPrototypeMembers \<Longrightarrow> truthy_js (getProperty own key) = truthy (own key)"
  by (simp add: getProperty_own truthy_js_def truthy_def split: option.splits)

subsection \<open>Facts about sets and the target list\<close>

lemma set_Set_add: "set (Set_add s x) = insert x (set s)"
  by (auto simp: Set_add_def)

lemma distinct_Set_add: "distinct s \<Longrightarrow> distinct (Set_add s x)"
  by (auto simp: Set_add_def)

lemma set_foldl_Set_add: "set (foldl Set_add s xs) = set s \<union> set xs"
  by (induction xs arbitrary: s) (auto simp: set_Set_add)

lemma distinct_foldl_Set_add: "distinct s \<Longrightarrow> distinct (foldl Set_add s xs)"
  by (induction xs arbitrary: s) (auto simp: distinct_Set_add)

lemma set_Set_new: "set (Set_new xs) = set xs"
  by (simp add: Set_new_def set_foldl_Set_add)

lemma distinct_Set_new: "distinct (Set_new xs)"
  by (simp add: Set_new_def distinct_foldl_Set_add)

lemma set_existingIds: "set (existingIds issue) = set (map label_id (labels issue))"
  by (simp add: existingIds_def set_Set_new)

lemma set_planned_gen:
  "set (foldl (\<lambda>s n. if truthy (m n) then Set_add s (the (m n)) else s) s0 names)
   = set s0 \<union> foundIds m names"
  by (induction names arbitrary: s0) (auto simp: foundIds_def set_Set_add)

lemma distinct_planned_gen:
  "distinct s0 \<Longrightarrow> distinct (foldl (\<lambda>s n. if truthy (m n) then Set_add s (the (m n)) else s) s0 names)"
  by (induction names arbitrary: s0) (auto simp: distinct_Set_add)

lemma set_plannedLabelIds:
  "set (plannedLabelIds m issue names) = set (map label_id (labels issue)) \<union> foundIds m names"
  unfolding plannedLabelIds_def set_planned_gen set_existingIds ..

lemma distinct_plannedLabelIds: "distinct (plannedLabelIds m issue names)"
  unfolding plannedLabelIds_def existingIds_def
  by (rule distinct_planned_gen) (rule distinct_Set_new)

lemma size_differs_iff:
  assumes "distinct a" "distinct b" "set a \<subseteq> set b"
  shows "(length b \<noteq> length a) = (set a \<subset> set b)"
proof -
  have "length a = card (set a)" "length b = card (set b)"
    using assms by (simp_all add: distinct_card)
  moreover have "card (set a) = card (set b) \<longleftrightarrow> set a = set b"
    using assms(3) by (metis List.finite_set card_subset_eq)
  ultimately show ?thesis using assms(3) by auto
qed

lemma planned_size_iff:
  "(length (plannedLabelIds m issue names) \<noteq> length (existingIds issue))
   = (set (existingIds issue) \<subset> set (plannedLabelIds m issue names))"
  by (rule size_differs_iff)
     (auto simp: existingIds_def distinct_Set_new distinct_plannedLabelIds
        set_plannedLabelIds set_Set_new)

lemma set_add_if_gen:
  "set (foldl (\<lambda>s n. if t n then Set_add s (v n) else s) s0 names)
   = set s0 \<union> v ` {n \<in> set names. t n}"
  by (induction names arbitrary: s0) (auto simp: set_Set_add)

lemma distinct_add_if_gen:
  "distinct s0 \<Longrightarrow> distinct (foldl (\<lambda>s n. if t n then Set_add s (v n) else s) s0 names)"
  by (induction names arbitrary: s0) (auto simp: distinct_Set_add)

lemma set_existingIds_v1: "set (existingIds_v1 issue) = Value ` set (map label_id (labels issue))"
  by (auto simp: existingIds_v1_def set_Set_new)

lemma set_plannedLabelIds_v1:
  "set (plannedLabelIds_v1 m issue names)
   = set (existingIds_v1 issue)
     \<union> (\<lambda>n. getProperty m (propertyKey n))
         ` {n \<in> set names. truthy_js (getProperty m (propertyKey n))}"
  unfolding plannedLabelIds_v1_def by (rule set_add_if_gen)

lemma distinct_plannedLabelIds_v1: "distinct (plannedLabelIds_v1 m issue names)"
  unfolding plannedLabelIds_v1_def existingIds_v1_def
  by (rule distinct_add_if_gen) (rule distinct_Set_new)

lemma planned_v1_size_iff:
  "(length (plannedLabelIds_v1 m issue names) \<noteq> length (existingIds_v1 issue))
   = (set (existingIds_v1 issue) \<subset> set (plannedLabelIds_v1 m issue names))"
  by (rule size_differs_iff)
     (auto simp: existingIds_v1_def distinct_Set_new distinct_plannedLabelIds_v1
        set_plannedLabelIds_v1)

text \<open>When no required name is the key of a member of \<^verbatim>\<open>Object.prototype\<close>, the target
  of the lookup-table variant holds the existing ids and the ids found, and nothing
  else.\<close>

lemma set_plannedLabelIds_v1_own:
  assumes "\<forall>n \<in> set names. propertyKey n \<notin> set objectPrototypeMembers"
  shows "set (plannedLabelIds_v1 m issue names)
         = Value ` (set (map label_id (labels issue)) \<union> foundIds m (map propertyKey names))"
proof -
  let ?found = "{n \<in> set names. truthy (m (propertyKey n))}"
  have a: "truthy_js (getProperty m (propertyKey n)) = truthy (m (propertyKey n))"
    if "n \<in> set names" for n
    using assms that by (simp add: truthy_js_own)
  have b: "getProperty m (propertyKey n) = Value (the (m (propertyKey n)))"
    if "n \<in> ?found" for n
    using assms that by (auto simp: getProperty_own truthy_def split: option.splits)
  have c: "{n \<in> set names. truthy_js (getProperty m (propertyKey n))} = ?found"
    using a by auto
  have "(\<lambda>n. getProperty m (propertyKey n))
          ` {n \<in> set names. truthy_js (getProperty m (propertyKey n))}
        = (\<lambda>n. Value (the (m (propertyKey n)))) ` ?found"
    unfolding c by (rule image_cong [OF refl]) (rule b)
  also have "\<dots> = Value ` (\<lambda>n. the (m (propertyKey n))) ` ?found"
    by (simp add: image_image)
  also have "(\<lambda>n. the (m (propertyKey n))) ` ?found = foundIds m (map propertyKey names)"
    by (auto simp: foundIds_def image_iff)
  finally show ?thesis
    unfolding set_plannedLabelIds_v1 set_existingIds_v1 by (simp add: image_Un)
qed

subsection \<open>The code of the loop bodies computes the plan\<close>

text \<open>A non-empty identifier always gets both labels.\<close>

lemma inferCoreSystemsLabel_Inr: "s \<noteq> [] \<Longrightarrow> \<exists>l. inferCoreSystemsLabel s = Inr l"
  unfolding inferCoreSystemsLabel_def
  by (subst split_first) (simp add: Let_def)

lemma inferCoreAreasLabel_Inr: "s \<noteq> [] \<Longrightarrow> \<exists>l. inferCoreAreasLabel s = Inr l"
  unfolding inferCoreAreasLabel_def
  by (subst split_first) (simp add: Let_def)

lemma applyIssue_reconcile:
  "applyIssue m issue w = (Inr (), reconcile LabelIdNotFound m issue (requiredNames issue) w)"
proof (cases "project issue")
  case None
  then show ?thesis
    by (simp add: applyIssue_def reconcile_def requiredNames_def)
next
  case (Some p)
  show ?thesis
  proof (cases "project_identifier p = []")
    case True
    with Some show ?thesis
      by (simp add: applyIssue_def reconcile_def requiredNames_def)
  next
    case False
    obtain s a where s: "inferCoreSystemsLabel (project_identifier p) = Inr s"
      and a: "inferCoreAreasLabel (project_identifier p) = Inr a"
      using inferCoreSystemsLabel_Inr [OF False] inferCoreAreasLabel_Inr [OF False] by blast
    have req: "requiredNames issue = Some [s, a]"
      using Some False s a by (simp add: requiredNames_def)
    show ?thesis
      unfolding req
      using Some False s a
      by (simp add: applyIssue_def reconcile_def plannedLabelIds_def warnMissing_def
            existingIds_def Let_def)
  qed
qed

lemma foldl_addRequired:
  "foldl (addRequired m pm) (s0, w) gs =
   (foldl (\<lambda>s n. if truthy_js (getProperty m (propertyKey n))
                 then Set_add s (getProperty m (propertyKey n)) else s) s0 (map (groupLabel pm) gs),
    foldl (\<lambda>v n. if truthy_js (getProperty m (propertyKey n)) then v
                 else console (RequiredLabelNotFound (propertyKey n)) v) w (map (groupLabel pm) gs))"
  by (induction gs arbitrary: s0 w) (simp_all add: addRequired_def Let_def)

lemma requiredNames_v1_groups:
  "getProperty mapping (project_name p) \<noteq> Undefined \<Longrightarrow> project issue = Some p \<Longrightarrow>
   requiredNames_v1 mapping issue
   = Some (map (groupLabel (getProperty mapping (project_name p))) LABEL_GROUPS)"
  by (cases "getProperty mapping (project_name p)")
     (simp_all add: requiredNames_v1_def LABEL_GROUPS_def groupLabel_def)

lemma applyIssue_v1_reconcile:
  "applyIssue_v1 (Some mapping) m issue w =
   (Inr (), reconcile_v1 m issue (requiredNames_v1 mapping issue) w)"
proof (cases "project issue")
  case None
  then show ?thesis
    by (simp add: applyIssue_v1_def reconcile_v1_def requiredNames_v1_def)
next
  case (Some p)
  show ?thesis
  proof (cases "getProperty mapping (project_name p) = Undefined")
    case True
    with Some show ?thesis
      by (simp add: applyIssue_v1_def reconcile_v1_def requiredNames_v1_def)
  next
    case False
    show ?thesis
      unfolding applyIssue_v1_def foldl_addRequired requiredNames_v1_groups [OF False Some]
      using Some False
      by (simp add: reconcile_v1_def plannedLabelIds_v1_def warnMissing_v1_def
            existingIds_v1_def Let_def)
  qed
qed

subsection \<open>Facts about the loops\<close>

lemma sends_subset: "sends w w' rs \<Longrightarrow> set (trace w) \<subseteq> set (trace w')"
  by (auto simp: sends_def)

lemma forOf_total:
  assumes "\<And>x v. body x v = (Inr (), g x v)"
  shows "forOf body xs w = (Inr (), foldl (\<lambda>v x. g x v) w xs)"
  by (induction xs arbitrary: w) (simp_all add: assms)

lemma arrayFilter_total:
  assumes "\<And>x v. \<exists>v'. callback x v = (Inr (p x), v') \<and> sends v v' []"
  shows "\<exists>w'. arrayFilter callback xs w = (Inr (filter p xs), w') \<and> sends w w' []"
proof (induction xs arbitrary: w)
  case Nil
  show ?case by (simp add: sends_refl)
next
  case (Cons x xs)
  obtain w1 where c: "callback x w = (Inr (p x), w1)" and s1: "sends w w1 []"
    using assms by blast
  obtain w2 where r: "arrayFilter callback xs w1 = (Inr (filter p xs), w2)" and s2: "sends w1 w2 []"
    using Cons.IH by blast
  have "sends w w2 []" using sends_trans [OF s1 s2] by simp
  then show ?case by (simp add: c r)
qed

lemma needsUpdate_selects:
  "\<exists>w'. needsUpdate issue w = (Inr (missesRequired (requiredNames issue) issue), w') \<and> sends w w' []"
proof (cases "project issue")
  case None
  then show ?thesis
    by (simp add: needsUpdate_def requiredNames_def missesRequired_def sends_console)
next
  case (Some p)
  show ?thesis
  proof (cases "project_identifier p = []")
    case True
    with Some show ?thesis
      by (simp add: needsUpdate_def requiredNames_def missesRequired_def sends_console)
  next
    case False
    obtain s a where s: "inferCoreSystemsLabel (project_identifier p) = Inr s"
      and a: "inferCoreAreasLabel (project_identifier p) = Inr a"
      using inferCoreSystemsLabel_Inr [OF False] inferCoreAreasLabel_Inr [OF False] by blast
    show ?thesis
      using Some False s a
      by (auto simp add: needsUpdate_def requiredNames_def missesRequired_def Let_def
            set_Set_new sends_console sends_refl)
  qed
qed

lemma needsUpdate_v1_selects:
  "\<exists>w'. needsUpdate_v1 (Some mapping) issue w
         = (Inr (missesRequired_v1 (requiredNames_v1 mapping issue) issue), w') \<and> sends w w' []"
proof (cases "project issue")
  case None
  then show ?thesis
    by (simp add: needsUpdate_v1_def requiredNames_v1_def missesRequired_v1_def sends_console)
next
  case (Some p)
  show ?thesis
  proof (cases "getProperty mapping (project_name p)")
    case Undefined
    with Some show ?thesis
      by (simp add: needsUpdate_v1_def requiredNames_v1_def missesRequired_v1_def sends_console)
  next
    case (Value entry)
    with Some show ?thesis
      by (auto simp add: needsUpdate_v1_def requiredNames_v1_def missesRequired_v1_def Let_def
            set_Set_new sends_console sends_refl LABEL_GROUPS_def groupLabel_def Set_has_def)
  next
    case (PrototypeMember k)
    with Some show ?thesis
      by (auto simp add: needsUpdate_v1_def requiredNames_v1_def missesRequired_v1_def Let_def
            set_Set_new sends_console sends_refl LABEL_GROUPS_def groupLabel_def Set_has_def)
  qed
qed

lemma sends_warnMissing: "sends w (warnMissing warn m names w) []"
  unfolding warnMissing_def
proof (induction names arbitrary: w)
  case Nil
  show ?case by (simp add: sends_refl)
next
  case (Cons n names)
  have "sends w (if truthy (m n) then w else console (warn n) w) []"
    by (simp add: sends_refl sends_console)
  from sends_trans [OF this Cons.IH] show ?case by simp
qed

lemma warnMissing_logged:
  "n \<in> set names \<Longrightarrow> \<not> truthy (m n) \<Longrightarrow> Console (warn n) \<in> set (trace (warnMissing warn m names w))"
  unfolding warnMissing_def
proof (induction names arbitrary: w)
  case Nil
  then show ?case by simp
next
  case (Cons x names)
  let ?w1 = "if truthy (m x) then w else console (warn x) w"
  show ?case
  proof (cases "n = x")
    case True
    then have "Console (warn n) \<in> set (trace ?w1)"
      using Cons.prems by (simp add: trace_console)
    moreover have "set (trace ?w1) \<subseteq> set (trace (foldl (\<lambda>v n. if truthy (m n) then v else console (warn n) v) ?w1 names))"
      using sends_warnMissing [of ?w1 warn m names]
      unfolding warnMissing_def by (rule sends_subset)
    ultimately show ?thesis by auto
  next
    case False
    then have "n \<in> set names" using Cons.prems by simp
    from Cons.IH [OF this Cons.prems(2)] show ?thesis by simp
  qed
qed

lemma sends_reconcile:
  "\<exists>k. sends w (reconcile warn m issue req w) (replicate k (updateOf m issue req))
      \<and> (0 < k) = submits m issue req"
proof (cases req)
  case None
  then show ?thesis
    by (intro exI [of _ 0]) (simp add: reconcile_def submits_def sends_refl)
next
  case (Some names)
  let ?w2 = "warnMissing warn m names w"
  let ?t = "plannedLabelIds m issue names"
  have a: "sends w ?w2 []" by (rule sends_warnMissing)
  show ?thesis
  proof (cases "length ?t \<noteq> length (existingIds issue)")
    case True
    obtain k where "sends ?w2 (updateIssue issue ?t ?w2) (replicate (Suc k) (UpdateIssueMutation (issue_id issue) ?t))"
      using sends_updateIssue by blast
    from sends_trans [OF a this] show ?thesis
      using True Some
      by (intro exI [of _ "Suc k"]) (simp add: reconcile_def submits_def updateOf_def Let_def)
  next
    case False
    have "sends w (console (NoLabelChanges issue) ?w2) []"
      using a by (rule sends_console')
    then show ?thesis
      using False Some
      by (intro exI [of _ 0]) (simp add: reconcile_def submits_def Let_def)
  qed
qed

lemma reconcile_warns:
  assumes "req = Some names" "n \<in> set names" "\<not> truthy (m n)"
  shows "Console (warn n) \<in> set (trace (reconcile warn m issue req w))"
proof -
  let ?w2 = "warnMissing warn m names w"
  have a: "Console (warn n) \<in> set (trace ?w2)"
    using assms by (intro warnMissing_logged)
  have b: "set (trace ?w2) \<subseteq> set (trace (updateIssue issue ids ?w2))" for ids
    using sends_updateIssue [of ?w2 issue ids] sends_subset by blast
  show ?thesis
    using a b assms(1)
    by (auto simp: reconcile_def Let_def trace_console)
qed

lemma sends_reconcile_all:
  "\<exists>rs. sends w (foldl (\<lambda>v i. reconcile warn m i (req i) v) w plan) rs
       \<and> set rs = (\<lambda>i. updateOf m i (req i)) ` {i \<in> set plan. submits m i (req i)}"
proof (induction plan arbitrary: w)
  case Nil
  show ?case by (simp add: sends_refl)
next
  case (Cons i plan)
  let ?w1 = "reconcile warn m i (req i) w"
  obtain k where k: "sends w ?w1 (replicate k (updateOf m i (req i)))"
    and kk: "(0 < k) = submits m i (req i)"
    using sends_reconcile by blast
  obtain rs where rs: "sends ?w1 (foldl (\<lambda>v i. reconcile warn m i (req i) v) ?w1 plan) rs"
    and set_rs: "set rs = (\<lambda>i. updateOf m i (req i)) ` {i \<in> set plan. submits m i (req i)}"
    using Cons.IH by blast
  have "set (replicate k (updateOf m i (req i)) @ rs)
        = (\<lambda>i. updateOf m i (req i)) ` {j \<in> set (i # plan). submits m j (req j)}"
    using kk set_rs by (cases "k = 0") auto
  with sends_trans [OF k rs] show ?case
    by (intro exI [of _ "replicate k (updateOf m i (req i)) @ rs"]) simp
qed

lemma sends_warnMissing_v1: "sends w (warnMissing_v1 m names w) []"
  unfolding warnMissing_v1_def
proof (induction names arbitrary: w)
  case Nil
  show ?case by (simp add: sends_refl)
next
  case (Cons n names)
  have "sends w (if truthy_js (getProperty m (propertyKey n)) then w
                 else console (RequiredLabelNotFound (propertyKey n)) w) []"
    by (simp add: sends_refl sends_console)
  from sends_trans [OF this Cons.IH] show ?case by simp
qed

lemma warnMissing_v1_logged:
  "n \<in> set names \<Longrightarrow> \<not> truthy_js (getProperty m (propertyKey n)) \<Longrightarrow>
   Console (RequiredLabelNotFound (propertyKey n)) \<in> set (trace (warnMissing_v1 m names w))"
  unfolding warnMissing_v1_def
proof (induction names arbitrary: w)
  case Nil
  then show ?case by simp
next
  case (Cons x names)
  let ?step = "\<lambda>v n. if truthy_js (getProperty m (propertyKey n)) then v
                       else console (RequiredLabelNotFound (propertyKey n)) v"
  let ?w1 = "?step w x"
  show ?case
  proof (cases "n = x")
    case True
    then have "Console (RequiredLabelNotFound (propertyKey n)) \<in> set (trace ?w1)"
      using Cons.prems by (simp add: trace_console)
    moreover have "set (trace ?w1) \<subseteq> set (trace (foldl ?step ?w1 names))"
      using sends_warnMissing_v1 [of ?w1 m names]
      unfolding warnMissing_v1_def by (rule sends_subset)
    ultimately show ?thesis by auto
  next
    case False
    then have "n \<in> set names" using Cons.prems by simp
    from Cons.IH [OF this Cons.prems(2)] show ?thesis by simp
  qed
qed

lemma sends_reconcile_v1:
  "\<exists>k. sends w (reconcile_v1 m issue req w) (replicate k (updateOf_v1 m issue req))
      \<and> (0 < k) = submits_v1 m issue req"
proof (cases req)
  case None
  then show ?thesis
    by (intro exI [of _ 0]) (simp add: reconcile_v1_def submits_v1_def sends_refl)
next
  case (Some names)
  let ?w2 = "warnMissing_v1 m names w"
  let ?t = "plannedLabelIds_v1 m issue names"
  have a: "sends w ?w2 []" by (rule sends_warnMissing_v1)
  show ?thesis
  proof (cases "length ?t \<noteq> length (existingIds_v1 issue)")
    case True
    obtain k where "sends ?w2 (updateIssue_v1 issue ?t ?w2)
        (replicate (Suc k) (UpdateIssueMutation_v1 (issue_id issue) ?t))"
      using sends_updateIssue_v1 by blast
    from sends_trans [OF a this] show ?thesis
      using True Some
      by (intro exI [of _ "Suc k"])
         (simp add: reconcile_v1_def submits_v1_def updateOf_v1_def Let_def)
  next
    case False
    have "sends w (console (NoLabelChanges issue) ?w2) []"
      using a by (rule sends_console')
    then show ?thesis
      using False Some
      by (intro exI [of _ 0]) (simp add: reconcile_v1_def submits_v1_def Let_def)
  qed
qed

lemma reconcile_v1_warns:
  assumes "req = Some names" "n \<in> set names" "\<not> truthy_js (getProperty m (propertyKey n))"
  shows "Console (RequiredLabelNotFound (propertyKey n))
           \<in> set (trace (reconcile_v1 m issue req w))"
proof -
  let ?w2 = "warnMissing_v1 m names w"
  have a: "Console (RequiredLabelNotFound (propertyKey n)) \<in> set (trace ?w2)"
    using assms by (intro warnMissing_v1_logged)
  have b: "set (trace ?w2) \<subseteq> set (trace (updateIssue_v1 issue ids ?w2))" for ids
    using sends_updateIssue_v1 [of ?w2 issue ids] sends_subset by blast
  show ?thesis
    using a b assms(1)
    by (auto simp: reconcile_v1_def Let_def trace_console)
qed

lemma sends_reconcile_v1_all:
  "\<exists>rs. sends w (foldl (\<lambda>v i. reconcile_v1 m i (req i) v) w plan) rs
       \<and> set rs = (\<lambda>i. updateOf_v1 m i (req i)) ` {i \<in> set plan. submits_v1 m i (req i)}"
proof (induction plan arbitrary: w)
  case Nil
  show ?case by (simp add: sends_refl)
next
  case (Cons i plan)
  let ?w1 = "reconcile_v1 m i (req i) w"
  obtain k where k: "sends w ?w1 (replicate k (updateOf_v1 m i (req i)))"
    and kk: "(0 < k) = submits_v1 m i (req i)"
    using sends_reconcile_v1 by blast
  obtain rs where rs: "sends ?w1 (foldl (\<lambda>v i. reconcile_v1 m i (req i) v) ?w1 plan) rs"
    and set_rs: "set rs = (\<lambda>i. updateOf_v1 m i (req i)) ` {i \<in> set plan. submits_v1 m i (req i)}"
    using Cons.IH by blast
  have "set (replicate k (updateOf_v1 m i (req i)) @ rs)
        = (\<lambda>i. updateOf_v1 m i (req i)) ` {j \<in> set (i # plan). submits_v1 m j (req j)}"
    using kk set_rs by (cases "k = 0") auto
  with sends_trans [OF k rs] show ?case
    by (intro exI [of _ "replicate k (updateOf_v1 m i (req i)) @ rs"]) simp
qed

subsection \<open>Facts about pagination\<close>

lemma mappingFile_console: "mappingFile (console l w) = mappingFile w"
  by (simp add: console_def)

lemma mappingFile_setTimeout: "mappingFile (setTimeout ms w) = mappingFile w"
  by (simp add: setTimeout_def)

lemma mappingFile_graphqlRequest: "mappingFile (snd (graphqlRequest api r w)) = mappingFile w"
  by (auto simp: graphqlRequest_def Let_def mappingFile_console
           split: http_response.splits option.splits)

lemma mappingFile_fetchWithRetry:
  "mappingFile (snd (fetchWithRetry (graphqlRequest api r) attempts w)) = mappingFile w"
proof (induction "graphqlRequest api r" attempts w rule: fetchWithRetry.induct)
  case (1 attempts w)
  obtain res w1 where g: "graphqlRequest api r w = (res, w1)"
    by (cases "graphqlRequest api r w")
  have m1: "mappingFile w1 = mappingFile w"
    using mappingFile_graphqlRequest [of api r w] g by simp
  show ?case
  proof (cases res)
    case (Inr v)
    then show ?thesis
      by (subst fetchWithRetry.simps) (simp add: g m1)
  next
    case (Inl e)
    show ?thesis
    proof (cases "attempts \<le> 1")
      case True
      then show ?thesis
        by (subst fetchWithRetry.simps) (simp add: g Inl m1)
    next
      case False
      from "1" [OF g [symmetric] Inl False] show ?thesis
        by (subst fetchWithRetry.simps)
           (simp add: g Inl False m1 mappingFile_console mappingFile_setTimeout)
    qed
  qed
qed

lemma mappingFile_fetchPages:
  assumes "fetchPages api query items cursor w = Some y"
  shows "mappingFile (snd y) = mappingFile w"
proof -
  let ?Q = "\<lambda>(api :: world \<Rightarrow> nat \<Rightarrow> 'a page http_response) (query :: string option \<Rightarrow> request)
             (items :: 'a list) (cursor :: string option) w (y :: (error + 'a list) \<times> world).
             mappingFile (snd y) = mappingFile w"
  have step: "?Q api query items cursor w y"
    if ih: "\<And>api query items cursor w y. f api query items cursor w = Some y
              \<Longrightarrow> ?Q api query items cursor w y"
    and body: "(case fetchWithRetry (graphqlRequest api (query cursor)) RETRY_ATTEMPTS w of
        (Inl e, w1) \<Rightarrow> Some (Inl e, w1)
      | (Inr response, w1) \<Rightarrow>
          (case data response of
             None \<Rightarrow> Some (Inl MissingData, w1)
           | Some pg \<Rightarrow>
               if hasNextPage pg
               then f api query (items @ nodes pg) (endCursor pg) w1
               else Some (Inr (items @ nodes pg), w1))) = Some y"
    for f api query items cursor w y
  proof -
    obtain res w1 where
      r: "fetchWithRetry (graphqlRequest api (query cursor)) RETRY_ATTEMPTS w = (res, w1)"
      by (cases "fetchWithRetry (graphqlRequest api (query cursor)) RETRY_ATTEMPTS w")
    have m1: "mappingFile w1 = mappingFile w"
      using mappingFile_fetchWithRetry [of api "query cursor" RETRY_ATTEMPTS w] r by simp
    show ?thesis
    proof (cases res)
      case (Inl e)
      with body r m1 show ?thesis by auto
    next
      case (Inr response)
      show ?thesis
      proof (cases "data response")
        case None
        with body r Inr m1 show ?thesis by auto
      next
        case (Some pg)
        show ?thesis
        proof (cases "hasNextPage pg")
          case False
          with body r Inr Some m1 show ?thesis by auto
        next
          case True
          with body r Inr Some
          have "f api query (items @ nodes pg) (endCursor pg) w1 = Some y" by simp
          from ih [OF this] m1 show ?thesis by simp
        qed
      qed
    qed
  qed
  show ?thesis
    by (rule fetchPages.raw_induct [where P = ?Q, OF step assms])
qed

lemma sends_fetchPages:
  assumes "fetchPages api query items cursor w = Some y"
  shows "\<exists>rs. sends w (snd y) (query cursor # rs) \<and> (\<forall>x \<in> set rs. \<exists>c. x = query c)"
proof -
  let ?Q = "\<lambda>(api :: world \<Rightarrow> nat \<Rightarrow> 'a page http_response) (query :: string option \<Rightarrow> request)
             (items :: 'a list) (cursor :: string option) w (y :: (error + 'a list) \<times> world).
             \<exists>rs. sends w (snd y) (query cursor # rs) \<and> (\<forall>x \<in> set rs. \<exists>c. x = query c)"
  have step: "?Q api query items cursor w y"
    if ih: "\<And>api query items cursor w y. f api query items cursor w = Some y
              \<Longrightarrow> ?Q api query items cursor w y"
    and body: "(case fetchWithRetry (graphqlRequest api (query cursor)) RETRY_ATTEMPTS w of
        (Inl e, w1) \<Rightarrow> Some (Inl e, w1)
      | (Inr response, w1) \<Rightarrow>
          (case data response of
             None \<Rightarrow> Some (Inl MissingData, w1)
           | Some pg \<Rightarrow>
               if hasNextPage pg
               then f api query (items @ nodes pg) (endCursor pg) w1
               else Some (Inr (items @ nodes pg), w1))) = Some y"
    for f api query items cursor w y
  proof -
    obtain res w1 where
      r: "fetchWithRetry (graphqlRequest api (query cursor)) RETRY_ATTEMPTS w = (res, w1)"
      by (cases "fetchWithRetry (graphqlRequest api (query cursor)) RETRY_ATTEMPTS w")
    obtain k where s1: "sends w w1 (replicate (Suc k) (query cursor))"
      using sends_fetchWithRetry [of w api "query cursor" RETRY_ATTEMPTS] r by auto
    have here: "\<exists>rs. sends w w1 (query cursor # rs) \<and> (\<forall>x \<in> set rs. \<exists>c. x = query c)"
      using s1 by (intro exI [of _ "replicate k (query cursor)"]) auto
    show ?thesis
    proof (cases res)
      case (Inl e)
      with body r here show ?thesis by auto
    next
      case (Inr response)
      show ?thesis
      proof (cases "data response")
        case None
        with body r Inr here show ?thesis by auto
      next
        case (Some pg)
        show ?thesis
        proof (cases "hasNextPage pg")
          case False
          with body r Inr Some here show ?thesis by auto
        next
          case True
          with body r Inr Some
          have "f api query (items @ nodes pg) (endCursor pg) w1 = Some y" by simp
          from ih [OF this] obtain rs where
            s2: "sends w1 (snd y) (query (endCursor pg) # rs)" and
            all: "\<forall>x \<in> set rs. \<exists>c. x = query c" by blast
          from sends_trans [OF s1 s2] all show ?thesis
            by (intro exI [of _ "replicate k (query cursor) @ query (endCursor pg) # rs"]) auto
        qed
      qed
    qed
  qed
  show ?thesis
    by (rule fetchPages.raw_induct [where P = ?Q, OF step assms])
qed

lemma updateRequests_sends:
  "sends w w' rs \<Longrightarrow> updateRequests (trace w') = updateRequests (trace w) @ filter isUpdate rs"
  by (auto simp: sends_def updateRequests_def requestsOf_append)

lemma fetchAllIssues_no_update:
  assumes "fetchAllIssues w = Some y"
  shows "updateRequests (trace (snd y)) = updateRequests (trace w)"
proof -
  from sends_fetchPages [OF assms [unfolded fetchAllIssues_def]] obtain rs where
    s: "sends w (snd y) (IssuesQuery None # rs)" and all: "\<forall>x \<in> set rs. \<exists>c. x = IssuesQuery c"
    by blast
  have "filter isUpdate (IssuesQuery None # rs) = []"
    using all by (auto simp: filter_empty_conv)
  with updateRequests_sends [OF s] show ?thesis by simp
qed

lemma fetchWorkspaceLabels_no_update:
  assumes "fetchWorkspaceLabels w = Some y"
  shows "updateRequests (trace (snd y)) = updateRequests (trace w)"
proof -
  from sends_fetchPages [OF assms [unfolded fetchWorkspaceLabels_def]] obtain rs where
    s: "sends w (snd y) (WorkspaceLabelsQuery None # rs)"
    and all: "\<forall>x \<in> set rs. \<exists>c. x = WorkspaceLabelsQuery c"
    by blast
  have "filter isUpdate (WorkspaceLabelsQuery None # rs) = []"
    using all by (auto simp: filter_empty_conv)
  with updateRequests_sends [OF s] show ?thesis by simp
qed

lemma updateRequests_console: "updateRequests (trace (console l w)) = updateRequests (trace w)"
  by (simp add: updateRequests_def trace_console requestsOf_append)

subsection \<open>Facts about whole runs\<close>

lemma requestsDuring_reconcile:
  "\<exists>k. requestsDuring w (reconcile warn m issue req w) = replicate k (updateOf m issue req)
      \<and> (0 < k) = submits m issue req"
  using sends_reconcile [of w warn m issue req] sends_requestsDuring by blast

lemma requestsDuring_console:
  "requestsDuring w (console l w') = requestsDuring w w'"
  by (simp add: requestsDuring_def trace_console requestsOf_append)

lemma last_trace_console: "last (trace (console l w)) = Console l"
  by (simp add: trace_console)

lemma syncTasks_issues_fail:
  "fetchAllIssues w = Some (Inl e, w1) \<Longrightarrow> syncTasks w = Some (console (ErrorSyncingTasks e) w1)"
  by (simp add: syncTasks_def)

lemma syncTasks_labels_fail:
  "fetchAllIssues w = Some (Inr issues, w1) \<Longrightarrow>
   fetchWorkspaceLabels (console (FetchedIssues (length issues)) w1) = Some (Inl e, w2) \<Longrightarrow>
   syncTasks w = Some (console (ErrorSyncingTasks e) w2)"
  by (simp add: syncTasks_def)

lemma syncTasks_applies_sends:
  assumes i: "fetchAllIssues w = Some (Inr issues, w1)"
    and l: "fetchWorkspaceLabels (console (FetchedIssues (length issues)) w1)
              = Some (Inr workspaceLabels, w2)"
  shows "\<exists>w' rs. syncTasks w = Some w'
           \<and> last (trace w') = Console TaskSyncCompleted
           \<and> sends w2 w' rs
           \<and> set rs
               = (\<lambda>i. updateOf (labelNameToId workspaceLabels) i (requiredNames i))
                 ` {i \<in> set issues. missesRequired (requiredNames i) i
                                    \<and> submits (labelNameToId workspaceLabels) i (requiredNames i)}"
proof -
  let ?m = "labelNameToId workspaceLabels"
  let ?sel = "\<lambda>i. missesRequired (requiredNames i) i"
  let ?w3 = "console (WorkspaceLabelsLog (map label_name workspaceLabels))
               (console (FetchedWorkspaceLabels (length workspaceLabels)) w2)"
  obtain w4 where f: "arrayFilter needsUpdate issues ?w3 = (Inr (filter ?sel issues), w4)"
    and s4: "sends ?w3 w4 []"
    using arrayFilter_total [of needsUpdate ?sel issues ?w3] needsUpdate_selects by blast
  let ?w5 = "console (IssuesNeedUpdating (length (filter ?sel issues))) w4"
  let ?w6 = "foldl (\<lambda>v i. reconcile LabelIdNotFound ?m i (requiredNames i) v) ?w5 (filter ?sel issues)"
  have loop: "forOf (applyIssue ?m) (filter ?sel issues) ?w5 = (Inr (), ?w6)"
    by (rule forOf_total) (rule applyIssue_reconcile)
  have run: "syncTasks w = Some (console TaskSyncCompleted ?w6)"
    using i l f loop by (simp add: syncTasks_def Let_def)
  obtain rs where s6: "sends ?w5 ?w6 rs"
    and set_rs: "set rs = (\<lambda>i. updateOf ?m i (requiredNames i))
                  ` {i \<in> set (filter ?sel issues). submits ?m i (requiredNames i)}"
    using sends_reconcile_all [of ?w5 LabelIdNotFound ?m requiredNames "filter ?sel issues"]
    by blast
  have "sends w2 ?w3 []" by (intro sends_console' sends_refl)
  from sends_trans [OF this s4] have "sends w2 ?w5 []" by (simp add: sends_console')
  from sends_trans [OF this s6] have "sends w2 (console TaskSyncCompleted ?w6) rs"
    by (simp add: sends_console')
  moreover have "{i \<in> set (filter ?sel issues). submits ?m i (requiredNames i)}
      = {i \<in> set issues. ?sel i \<and> submits ?m i (requiredNames i)}"
    by auto
  ultimately show ?thesis
    using run set_rs
    by (intro exI [of _ "console TaskSyncCompleted ?w6"] exI [of _ rs])
       (simp add: last_trace_console)
qed

lemma syncTasks_applies:
  assumes i: "fetchAllIssues w = Some (Inr issues, w1)"
    and l: "fetchWorkspaceLabels (console (FetchedIssues (length issues)) w1)
              = Some (Inr workspaceLabels, w2)"
  shows "\<exists>w'. syncTasks w = Some w'
           \<and> last (trace w') = Console TaskSyncCompleted
           \<and> set (requestsDuring w2 w')
               = (\<lambda>i. updateOf (labelNameToId workspaceLabels) i (requiredNames i))
                 ` {i \<in> set issues. missesRequired (requiredNames i) i
                                    \<and> submits (labelNameToId workspaceLabels) i (requiredNames i)}"
  using syncTasks_applies_sends [OF i l] sends_requestsDuring by fastforce

lemma updateIssue_outcome:
  "updateIssue issue ids w =
     (case updateOutcome issue ids w of
        (Inl e, w2) \<Rightarrow> console (ErrorUpdating issue e) w2
      | (Inr result, w2) \<Rightarrow>
          (case data result of
             None \<Rightarrow> console (UnexpectedResponse issue) w2
           | Some d \<Rightarrow>
               (case issueUpdate d of
                  None \<Rightarrow> console (UnexpectedResponse issue) w2
                | Some u \<Rightarrow>
                    if success u
                    then console (UpdatedLabels (map label_name (labels (updated u))))
                           (console (SuccessfullyUpdated issue) w2)
                    else console (FailedToUpdate issue) w2)))"
  by (simp add: updateIssue_def updateOutcome_def Let_def)

lemma sends_fetchAllIssues:
  assumes "fetchAllIssues w = Some (r, w1)"
  shows "\<exists>rs. sends w w1 (IssuesQuery None # rs) \<and> filter isUpdate rs = []"
proof -
  from sends_fetchPages [OF assms [unfolded fetchAllIssues_def]] obtain rs where
    "sends w w1 (IssuesQuery None # rs)" "\<forall>x \<in> set rs. \<exists>c. x = IssuesQuery c"
    by auto
  then show ?thesis by (intro exI [of _ rs]) (auto simp: filter_empty_conv)
qed

lemma sends_fetchWorkspaceLabels:
  assumes "fetchWorkspaceLabels w = Some (r, w1)"
  shows "\<exists>rs. sends w w1 (WorkspaceLabelsQuery None # rs) \<and> filter isUpdate rs = []"
proof -
  from sends_fetchPages [OF assms [unfolded fetchWorkspaceLabels_def]] obtain rs where
    "sends w w1 (WorkspaceLabelsQuery None # rs)" "\<forall>x \<in> set rs. \<exists>c. x = WorkspaceLabelsQuery c"
    by auto
  then show ?thesis by (intro exI [of _ rs]) (auto simp: filter_empty_conv)
qed

lemma syncTasks_v1_mapping_fails:
  assumes bad: "mappingFile w = ReadFails \<or> mappingFile w = ParseFails"
    and i: "fetchAllIssues w = Some (Inr issues, w1)"
    and l: "fetchWorkspaceLabels (console (FetchedIssues (length issues)) w1)
              = Some (Inr workspaceLabels, w2)"
  shows "syncTasks_v1 w = Some (ProcessExit 1,
           console ErrorLoadingMappings
             (console (FetchedWorkspaceLabels (length workspaceLabels)) w2))"
proof -
  have "mappingFile w1 = mappingFile w"
    using mappingFile_fetchPages [OF i [unfolded fetchAllIssues_def]] by simp
  moreover have "mappingFile w2 = mappingFile (console (FetchedIssues (length issues)) w1)"
    using mappingFile_fetchPages [OF l [unfolded fetchWorkspaceLabels_def]] by simp
  ultimately have m: "mappingFile (console (FetchedWorkspaceLabels (length workspaceLabels)) w2)
      = mappingFile w"
    by (simp add: mappingFile_console)
  show ?thesis
    using bad i l m by (auto simp: syncTasks_v1_def loadProjectLabelMappings_def)
qed

lemma sends_labelLines:
  "sends w (foldl (\<lambda>v l. console (WorkspaceLabelLine l) v) w ls) []"
proof (induction ls arbitrary: w)
  case Nil
  show ?case by (simp add: sends_refl)
next
  case (Cons l ls)
  from sends_trans [OF sends_console Cons.IH] show ?case by simp
qed

text \<open>A run of the lookup-table variant whose two listings return and whose mapping
  document is read: the planner and the apply loop of the run are the filter and the
  loop body above.\<close>

lemma syncTasks_v1_applies_sends:
  assumes i: "fetchAllIssues w = Some (Inr issues, w1)"
    and l: "fetchWorkspaceLabels (console (FetchedIssues (length issues)) w1)
              = Some (Inr workspaceLabels, w2)"
    and mf: "mappingFile w = Parsed (Some mapping)"
  shows "\<exists>w' rs. syncTasks_v1 w = Some (Normal (), w')
           \<and> last (trace w') = Console TaskSyncCompleted
           \<and> Console (IssuesNeedUpdating
                 (length (filter (\<lambda>i. missesRequired_v1 (requiredNames_v1 mapping i) i) issues)))
               \<in> set (trace w')
           \<and> sends w2 w' rs
           \<and> set rs
               = (\<lambda>i. updateOf_v1 (labelNameToId workspaceLabels) i (requiredNames_v1 mapping i))
                 ` {i \<in> set issues. missesRequired_v1 (requiredNames_v1 mapping i) i
                      \<and> submits_v1 (labelNameToId workspaceLabels) i (requiredNames_v1 mapping i)}"
proof -
  let ?m = "labelNameToId workspaceLabels"
  let ?req = "requiredNames_v1 mapping"
  let ?sel = "\<lambda>i. missesRequired_v1 (?req i) i"
  let ?w3 = "console (FetchedWorkspaceLabels (length workspaceLabels)) w2"
  let ?w4 = "foldl (\<lambda>v l. console (WorkspaceLabelLine l) v)
               (console WorkspaceLabelsHeader ?w3) workspaceLabels"
  have "mappingFile w1 = mappingFile w"
    using mappingFile_fetchPages [OF i [unfolded fetchAllIssues_def]] by simp
  moreover have "mappingFile w2 = mappingFile (console (FetchedIssues (length issues)) w1)"
    using mappingFile_fetchPages [OF l [unfolded fetchWorkspaceLabels_def]] by simp
  ultimately have "mappingFile ?w3 = Parsed (Some mapping)"
    using mf by (simp add: mappingFile_console)
  then have load: "loadProjectLabelMappings ?w3 = (Normal (Some mapping), ?w3)"
    by (simp add: loadProjectLabelMappings_def)
  obtain w5 where f: "arrayFilter (needsUpdate_v1 (Some mapping)) issues ?w4
                        = (Inr (filter ?sel issues), w5)"
    and s5: "sends ?w4 w5 []"
    using arrayFilter_total [of "needsUpdate_v1 (Some mapping)" ?sel issues ?w4]
      needsUpdate_v1_selects by blast
  let ?w6 = "console (IssuesNeedUpdating (length (filter ?sel issues))) w5"
  let ?w7 = "foldl (\<lambda>v i. reconcile_v1 ?m i (?req i) v) ?w6 (filter ?sel issues)"
  have loop: "forOf (applyIssue_v1 (Some mapping) ?m) (filter ?sel issues) ?w6 = (Inr (), ?w7)"
    by (rule forOf_total) (rule applyIssue_v1_reconcile)
  have run: "syncTasks_v1 w = Some (Normal (), console TaskSyncCompleted ?w7)"
    using i l load f loop by (simp add: syncTasks_v1_def Let_def)
  obtain rs where s7: "sends ?w6 ?w7 rs"
    and set_rs: "set rs = (\<lambda>i. updateOf_v1 ?m i (?req i))
                  ` {i \<in> set (filter ?sel issues). submits_v1 ?m i (?req i)}"
    using sends_reconcile_v1_all [of ?w6 ?m ?req "filter ?sel issues"] by blast
  have "Console (IssuesNeedUpdating (length (filter ?sel issues))) \<in> set (trace ?w6)"
    by (simp add: trace_console)
  then have line: "Console (IssuesNeedUpdating (length (filter ?sel issues)))
      \<in> set (trace (console TaskSyncCompleted ?w7))"
    using sends_subset [OF s7] by (auto simp: trace_console)
  have "sends w2 ?w3 []" by (rule sends_console)
  from sends_trans [OF this sends_console]
  have "sends w2 (console WorkspaceLabelsHeader ?w3) []" by simp
  from sends_trans [OF this sends_labelLines] have "sends w2 ?w4 []" by simp
  from sends_trans [OF this s5] have "sends w2 ?w6 []" by (simp add: sends_console')
  from sends_trans [OF this s7] have "sends w2 (console TaskSyncCompleted ?w7) rs"
    by (simp add: sends_console')
  moreover have "{i \<in> set (filter ?sel issues). submits_v1 ?m i (?req i)}
      = {i \<in> set issues. ?sel i \<and> submits_v1 ?m i (?req i)}"
    by auto
  ultimately show ?thesis
    using run set_rs line
    by (intro exI [of _ "console TaskSyncCompleted ?w7"] exI [of _ rs])
       (simp add: last_trace_console)
qed

lemma syncTasks_v1_applies:
  assumes i: "fetchAllIssues w = Some (Inr issues, w1)"
    and l: "fetchWorkspaceLabels (console (FetchedIssues (length issues)) w1)
              = Some (Inr workspaceLabels, w2)"
    and mf: "mappingFile w = Parsed (Some mapping)"
  shows "\<exists>w'. syncTasks_v1 w = Some (Normal (), w')
           \<and> last (trace w') = Console TaskSyncCompleted
           \<and> Console (IssuesNeedUpdating
                 (length (filter (\<lambda>i. missesRequired_v1 (requiredNames_v1 mapping i) i) issues)))
               \<in> set (trace w')
           \<and> set (requestsDuring w2 w')
               = (\<lambda>i. updateOf_v1 (labelNameToId workspaceLabels) i (requiredNames_v1 mapping i))
                 ` {i \<in> set issues. missesRequired_v1 (requiredNames_v1 mapping i) i
                      \<and> submits_v1 (labelNameToId workspaceLabels) i (requiredNames_v1 mapping i)}"
  using syncTasks_v1_applies_sends [OF i l mf] sends_requestsDuring by fastforce

lemma requestsDuring_reconcile_v1:
  "\<exists>k. requestsDuring w (reconcile_v1 m issue req w) = replicate k (updateOf_v1 m issue req)
      \<and> (0 < k) = submits_v1 m issue req"
  using sends_reconcile_v1 [of w m issue req] sends_requestsDuring by blast

lemma syncTasks_starts_with_issue_query:
  assumes "syncTasks w = Some w'"
  shows "\<exists>rs. requestsDuring w w' = IssuesQuery None # rs"
proof (cases "fetchAllIssues w")
  case None
  with assms show ?thesis by (simp add: syncTasks_def)
next
  case (Some y)
  obtain r1 w1 where y: "y = (r1, w1)" by (cases y)
  obtain rs where s1: "sends w w1 (IssuesQuery None # rs)"
    using sends_fetchAllIssues Some y by blast
  have pre: "set (requestsOf (trace w1)) \<subseteq> set (requestsOf (trace w1))" by simp
  have grows: "\<exists>es. trace w' = trace w1 @ es"
  proof (cases r1)
    case (Inl e)
    with assms Some y show ?thesis by (auto simp: syncTasks_def trace_console)
  next
    case (Inr issues)
    let ?v = "console (FetchedIssues (length issues)) w1"
    show ?thesis
    proof (cases "fetchWorkspaceLabels ?v")
      case None
      with assms Some y Inr show ?thesis by (simp add: syncTasks_def)
    next
      case (Some z)
      obtain r2 w2 where z: "z = (r2, w2)" by (cases z)
      obtain rs' where s2: "sends ?v w2 (WorkspaceLabelsQuery None # rs')"
        using sends_fetchWorkspaceLabels Some z by blast
      have s12: "sends w1 w2 (WorkspaceLabelsQuery None # rs')"
        using sends_trans [OF sends_console s2] by simp
      show ?thesis
      proof (cases r2)
        case (Inl e)
        with assms \<open>fetchAllIssues w = Some y\<close> y Inr Some z
        have "w' = console (ErrorSyncingTasks e) w2" by (simp add: syncTasks_def)
        with s12 show ?thesis by (auto simp: sends_def trace_console)
      next
        case (Inr workspaceLabels)
        from syncTasks_applies_sends [of w issues w1 workspaceLabels w2]
          \<open>fetchAllIssues w = Some y\<close> y \<open>r1 = Inr issues\<close> Some z Inr assms
        obtain rs2 where "sends w2 w' rs2" by auto
        from sends_trans [OF s12 this] show ?thesis by (auto simp: sends_def)
      qed
    qed
  qed
  then obtain es where "trace w' = trace w1 @ es" by blast
  then have "sends w1 w' (requestsOf es)" by (simp add: sends_def)
  from sends_trans [OF s1 this] show ?thesis
    using sends_requestsDuring by fastforce
qed

lemma delays_graphqlRequest: "delays (trace (snd (graphqlRequest api r w))) = delays (trace w)"
  by (auto simp: graphqlRequest_def Let_def trace_console delays_append
           split: http_response.splits option.splits)

subsection \<open>Evaluating the examples\<close>

text \<open>The definitions that run the program on a literal world. The weak congruence rules
  for \<open>let\<close> and for pairs make the simplifier evaluate a scrutinee before it enters the
  branches.\<close>

lemmas run_defs =
  syncTasks_def syncTasks_v1_def fetchAllIssues_def fetchWorkspaceLabels_def fetchPages.simps
  fetchWithRetry.simps graphqlRequest_def updateIssue_def applyIssue_def applyIssue_v1_def
  needsUpdate_def needsUpdate_v1_def loadProjectLabelMappings_def addRequired_def
  console_def setTimeout_def RETRY_ATTEMPTS_def RETRY_DELAY_def labelNameToId_def truthy_def
  Set_new_def Set_add_def LABEL_GROUPS_def groupLabel_def Let_def updateOutcome_def
  updateRequests_def requestsDuring_def updateIssue_v1_def getProperty_def
  objectPrototypeMembers_def truthy_js_def propertyKey_def Set_has_def

lemmas ex_defs =
  ex_world_def ex_issue_def ex_partial_issue_def ex_labelled_issue_def ex_system_label_def
  ex_area_label_def ex_bug_label_def ex_mapping_def ok_response_def failed_response_def
  ex_update_data_def ex_issues_down_def ex_labels_down_def ex_flaky_def ex_refused_def
  ex_member_mapping_def ex_member_issue_def ex_lookup_world_def ex_member_world_def

lemmas eval_defs = run_defs ex_defs js_defs

lemma Some_pair: "map_option fst x = Some a \<Longrightarrow> x = Some (a, snd (the x))"
  by (cases x) auto


subsection \<open>The apply round keeps the existing labels\<close>

text \<open>
  One round of the apply loop of the static variant: every update request it sends
  carries the id of the issue and a list whose set is the set of the existing label ids
  together with the ids found for the required names, and a required name without an id
  is reported on the console.
\<close>

lemma applyIssue_keeps_existing_labels:
  assumes "requiredNames issue = Some names"
  shows "(\<forall>r \<in> set (requestsDuring w (snd (applyIssue m issue w))).
          \<exists>ids. r = UpdateIssueMutation (issue_id issue) ids
              \<and> set (map label_id (labels issue)) \<subseteq> set ids
              \<and> set ids = set (map label_id (labels issue)) \<union> foundIds m names)
      \<and> (\<forall>n \<in> set names. \<not> truthy (m n) \<longrightarrow>
            Console (LabelIdNotFound n) \<in> set (trace (snd (applyIssue m issue w))))"
proof -
  obtain k where "requestsDuring w (reconcile LabelIdNotFound m issue (Some names) w)
      = replicate k (updateOf m issue (Some names))"
    using requestsDuring_reconcile by blast
  then have req: "r = updateOf m issue (Some names)"
    if "r \<in> set (requestsDuring w (reconcile LabelIdNotFound m issue (Some names) w))" for r
    using that by auto
  have warns: "Console (LabelIdNotFound n)
      \<in> set (trace (reconcile LabelIdNotFound m issue (Some names) w))"
    if "n \<in> set names" "\<not> truthy (m n)" for n
    using that by (intro reconcile_warns [OF refl])
  show ?thesis
    unfolding applyIssue_reconcile assms snd_conv
    apply (intro conjI ballI impI)
    subgoal for r using req [of r] by (simp add: updateOf_def set_plannedLabelIds)
    subgoal for n by (rule warns)
    done
qed

text \<open>
  The same round of the lookup-table variant. The existing ids are always part of the
  list. When no required name is the key of a member of \<^verbatim>\<open>Object.prototype\<close>, the list
  holds nothing but the existing ids and the ids found, and a required name without an
  id is reported.
\<close>

lemma applyIssue_v1_keeps_existing_labels:
  assumes "requiredNames_v1 mapping issue = Some names"
  shows "(\<forall>r \<in> set (requestsDuring w (snd (applyIssue_v1 (Some mapping) m issue w))).
          \<exists>ids. r = UpdateIssueMutation_v1 (issue_id issue) ids
              \<and> Value ` set (map label_id (labels issue)) \<subseteq> set ids
              \<and> ((\<forall>n \<in> set names. propertyKey n \<notin> set objectPrototypeMembers) \<longrightarrow>
                   set ids = Value ` (set (map label_id (labels issue))
                                      \<union> foundIds m (map propertyKey names))))
      \<and> (\<forall>n \<in> set names. propertyKey n \<notin> set objectPrototypeMembers
            \<longrightarrow> \<not> truthy (m (propertyKey n)) \<longrightarrow>
            Console (RequiredLabelNotFound (propertyKey n))
              \<in> set (trace (snd (applyIssue_v1 (Some mapping) m issue w))))"
proof -
  obtain k where "requestsDuring w (reconcile_v1 m issue (Some names) w)
      = replicate k (updateOf_v1 m issue (Some names))"
    using requestsDuring_reconcile_v1 by blast
  then have req: "r = updateOf_v1 m issue (Some names)"
    if "r \<in> set (requestsDuring w (reconcile_v1 m issue (Some names) w))" for r
    using that by auto
  have sub: "Value ` set (map label_id (labels issue)) \<subseteq> set (plannedLabelIds_v1 m issue names)"
    unfolding set_plannedLabelIds_v1 set_existingIds_v1 by blast
  have warns: "Console (RequiredLabelNotFound (propertyKey n))
      \<in> set (trace (reconcile_v1 m issue (Some names) w))"
    if "n \<in> set names" "propertyKey n \<notin> set objectPrototypeMembers"
      "\<not> truthy (m (propertyKey n))" for n
    using that by (intro reconcile_v1_warns [OF refl]) (simp_all add: truthy_js_own)
  show ?thesis
    unfolding applyIssue_v1_reconcile assms snd_conv
    apply (intro conjI ballI impI)
    subgoal for r
      using req [of r] sub set_plannedLabelIds_v1_own [of names m issue]
      by (intro exI [of _ "plannedLabelIds_v1 m issue names"]) (simp add: updateOf_v1_def)
    subgoal for n by (rule warns)
    done
qed

section \<open>The claims\<close>

text \<open>
  Claim C1, in the lookup-table variant, at a mapping document that names the required
  system label \<^verbatim>\<open>toString\<close>, in a workspace whose only label is the area label
  \<^verbatim>\<open>[50]\<close> with id \<^verbatim>\<open>L2\<close>, for the issue \<^verbatim>\<open>i1\<close> that carries the label \<^verbatim>\<open>L9\<close>. The
  workspace has no label named \<^verbatim>\<open>toString\<close>, so the claim asks for the list
  \<^verbatim>\<open>L9, L2\<close> and a warning. The name-to-id object has no own property \<^verbatim>\<open>toString\<close>,
  and the run sends one update request whose list has a third entry between the two
  ids, the function that the object inherits under that key, and prints no warning for
  the name. The source declares the list as strings only: the parameter of
  \<^verbatim>\<open>updateIssue\<close> is a \<^verbatim>\<open>string[]\<close>, the object is a \<^verbatim>\<open>Record<string, string>\<close>, and the
  mutation takes \<^verbatim>\<open>$labelIds: [String!]!\<close>.
\<close>

theorem lookup_table_adds_inherited_member:
  "labelNameToId [ex_area_label] ''toString'' = None
   \<and> requiredNames_v1 ex_member_mapping ex_issue = Some [Some ''toString'', Some ''[50]'']
   \<and> map_option (\<lambda>r. (fst r, requestsOf (trace (snd r)))) (syncTasks_v1 ex_member_world)
       = Some (Normal (),
               [IssuesQuery None, WorkspaceLabelsQuery None,
                UpdateIssueMutation_v1 ''i1''
                  [Value ''L9'', PrototypeMember ''toString'', Value ''L2'']])
   \<and> map_option (\<lambda>r. Console (RequiredLabelNotFound ''toString'') \<in> set (trace (snd r)))
        (syncTasks_v1 ex_member_world) = Some False"
proof -
  have a: "labelNameToId [ex_area_label] ''toString'' = None"
    by (simp add: labelNameToId_def ex_area_label_def)
  have b: "requiredNames_v1 ex_member_mapping ex_issue = Some [Some ''toString'', Some ''[50]'']"
    by (simp add: requiredNames_v1_def ex_member_mapping_def ex_issue_def getProperty_def)
  have c: "map_option (\<lambda>r. (fst r, requestsOf (trace (snd r)))) (syncTasks_v1 ex_member_world)
       = Some (Normal (),
               [IssuesQuery None, WorkspaceLabelsQuery None,
                UpdateIssueMutation_v1 ''i1''
                  [Value ''L9'', PrototypeMember ''toString'', Value ''L2'']])"
    by (simp add: eval_defs cong: let_weak_cong prod.case_cong_weak)
  have d: "map_option (\<lambda>r. Console (RequiredLabelNotFound ''toString'') \<in> set (trace (snd r)))
        (syncTasks_v1 ex_member_world) = Some False"
    by (simp add: eval_defs cong: let_weak_cong prod.case_cong_weak)
  from a b c d show ?thesis by (intro conjI)
qed

text \<open>
  Claim C2, for \<open>syncTasks\<close> of the static variant. When the issue listing raises, or the
  issue listing returns and the label listing raises, the run ends with the line
  \<^verbatim>\<open>Error syncing tasks\<close> and has sent no update request. When both listings return,
  the run returns and ends with \<^verbatim>\<open>Task sync completed successfully\<close>, and the update
  requests it has sent are those of all selected issues whose label-id set grows,
  whatever the service answers to any of them. An update that raises after its retries
  ends with the line \<^verbatim>\<open>Error updating issue\<close>, and one answered with
  \<^verbatim>\<open>success: false\<close> ends with the line \<^verbatim>\<open>Failed to update issue\<close>; \<open>updateIssue\<close>
  itself never raises.
\<close>

theorem fetch_failure_aborts_update_failure_continues:
  "(\<forall>e w1. fetchAllIssues w = Some (Inl e, w1) \<longrightarrow>
       syncTasks w = Some (console (ErrorSyncingTasks e) w1)
       \<and> updateRequests (trace (console (ErrorSyncingTasks e) w1)) = updateRequests (trace w))
   \<and> (\<forall>issues w1 e w2.
       fetchAllIssues w = Some (Inr issues, w1)
       \<and> fetchWorkspaceLabels (console (FetchedIssues (length issues)) w1) = Some (Inl e, w2) \<longrightarrow>
       syncTasks w = Some (console (ErrorSyncingTasks e) w2)
       \<and> updateRequests (trace (console (ErrorSyncingTasks e) w2)) = updateRequests (trace w))
   \<and> (\<forall>issues w1 workspaceLabels w2.
       fetchAllIssues w = Some (Inr issues, w1)
       \<and> fetchWorkspaceLabels (console (FetchedIssues (length issues)) w1)
           = Some (Inr workspaceLabels, w2) \<longrightarrow>
       (\<exists>w'. syncTasks w = Some w'
          \<and> last (trace w') = Console TaskSyncCompleted
          \<and> set (requestsDuring w2 w')
              = (\<lambda>i. updateOf (labelNameToId workspaceLabels) i (requiredNames i))
                ` {i \<in> set issues. missesRequired (requiredNames i) i
                     \<and> submits (labelNameToId workspaceLabels) i (requiredNames i)}))
   \<and> (\<forall>e v2. updateOutcome issue ids v = (Inl e, v2) \<longrightarrow>
         updateIssue issue ids v = console (ErrorUpdating issue e) v2)
   \<and> (\<forall>result u v2. updateOutcome issue ids v = (Inr result, v2)
         \<and> data result = Some \<lparr>issueUpdate = Some u\<rparr> \<and> \<not> success u \<longrightarrow>
         updateIssue issue ids v = console (FailedToUpdate issue) v2)"
proof -
  have a: "updateRequests (trace (console (ErrorSyncingTasks e) w1)) = updateRequests (trace w)"
    if "fetchAllIssues w = Some (Inl e, w1)" for e w1
    using fetchAllIssues_no_update [OF that] by (simp add: updateRequests_console)
  have b: "updateRequests (trace (console (ErrorSyncingTasks e) w2)) = updateRequests (trace w)"
    if "fetchAllIssues w = Some (Inr issues, w1)"
      "fetchWorkspaceLabels (console (FetchedIssues (length issues)) w1) = Some (Inl e, w2)"
    for issues w1 e w2
    using fetchAllIssues_no_update [OF that(1)] fetchWorkspaceLabels_no_update [OF that(2)]
    by (simp add: updateRequests_console)
  show ?thesis
    apply (intro conjI allI impI)
    subgoal for e w1 by (rule syncTasks_issues_fail)
    subgoal for e w1 by (rule a)
    subgoal for issues w1 e w2 by (elim conjE) (rule syncTasks_labels_fail)
    subgoal for issues w1 e w2 by (elim conjE) (rule b)
    subgoal for issues w1 workspaceLabels w2 by (elim conjE) (rule syncTasks_applies)
    subgoal for e v2 by (simp add: updateIssue_outcome)
    subgoal for result u v2 by (simp add: updateIssue_outcome)
    done
qed

text \<open>
  The theorem on the examples: with the issue listing down and with the label listing
  down the run sends no update; on \<open>ex_world\<close> the three attempts for \<^verbatim>\<open>i1\<close> fail and the
  update for \<^verbatim>\<open>i3\<close> is sent all the same.
\<close>

theorem fetch_failure_aborts_update_failure_continues_witness:
  "map_option fst (fetchAllIssues ex_issues_down) = Some (Inl (HttpError 503))
   \<and> map_option (\<lambda>v. (last (trace v), updateRequests (trace v))) (syncTasks ex_issues_down)
       = Some (Console (ErrorSyncingTasks (HttpError 503)), [])
   \<and> map_option fst (fetchAllIssues ex_labels_down)
       = Some (Inr [ex_issue, ex_partial_issue, ex_labelled_issue])
   \<and> map_option (\<lambda>v. (last (trace v), updateRequests (trace v))) (syncTasks ex_labels_down)
       = Some (Console (ErrorSyncingTasks (HttpError 502)), [])
   \<and> map_option fst (fetchAllIssues ex_world)
       = Some (Inr [ex_issue, ex_partial_issue, ex_labelled_issue])
   \<and> (\<exists>w'. syncTasks ex_world = Some w' \<and> last (trace w') = Console TaskSyncCompleted)
   \<and> map_option (\<lambda>v. (last (trace v), requestsOf (trace v))) (syncTasks ex_world)
       = Some (Console TaskSyncCompleted,
               [IssuesQuery None, WorkspaceLabelsQuery None,
                UpdateIssueMutation ''i1'' [''L9'', ''L1'', ''L2''],
                UpdateIssueMutation ''i1'' [''L9'', ''L1'', ''L2''],
                UpdateIssueMutation ''i1'' [''L9'', ''L1'', ''L2''],
                UpdateIssueMutation ''i3'' [''L1'', ''L2'']])
   \<and> fst (updateOutcome ex_issue [''L9'', ''L1'', ''L2''] ex_world) = Inl (HttpError 502)
   \<and> last (trace (updateIssue ex_issue [''L9'', ''L1'', ''L2''] ex_world))
       = Console (ErrorUpdating ex_issue (HttpError 502))
   \<and> last (trace (updateIssue ex_issue [''L9'', ''L1'', ''L2''] ex_refused))
       = Console (FailedToUpdate ex_issue)"
proof -
  let ?ids = "[''L9'', ''L1'', ''L2'']"
  let ?issues = "[ex_issue, ex_partial_issue, ex_labelled_issue]"
  note inst = fetch_failure_aborts_update_failure_continues
  note issues_fail = inst [THEN conjunct1, rule_format]
  note labels_fail = inst [THEN conjunct2, THEN conjunct1, rule_format]
  note raised = inst [THEN conjunct2, THEN conjunct2, THEN conjunct2, THEN conjunct1, rule_format]
  note refused = inst [THEN conjunct2, THEN conjunct2, THEN conjunct2, THEN conjunct2, rule_format]
  have a1: "map_option fst (fetchAllIssues ex_issues_down) = Some (Inl (HttpError 503))"
    by (simp add: eval_defs cong: let_weak_cong prod.case_cong_weak)
  have a0: "updateRequests (trace ex_issues_down) = []"
    by (simp add: eval_defs cong: let_weak_cong prod.case_cong_weak)
  from issues_fail [OF Some_pair [OF a1]] a0
  have a2: "map_option (\<lambda>v. (last (trace v), updateRequests (trace v))) (syncTasks ex_issues_down)
       = Some (Console (ErrorSyncingTasks (HttpError 503)), [])"
    by (simp add: last_trace_console)
  have b1: "map_option fst (fetchAllIssues ex_labels_down) = Some (Inr ?issues)"
    by (simp add: eval_defs cong: let_weak_cong prod.case_cong_weak)
  have b2: "map_option fst (fetchWorkspaceLabels (console (FetchedIssues (length ?issues))
               (snd (the (fetchAllIssues ex_labels_down))))) = Some (Inl (HttpError 502))"
    by (simp add: eval_defs cong: let_weak_cong prod.case_cong_weak)
  have b0: "updateRequests (trace ex_labels_down) = []"
    by (simp add: eval_defs cong: let_weak_cong prod.case_cong_weak)
  from labels_fail [OF conjI [OF Some_pair [OF b1] Some_pair [OF b2]]] b0
  have b3: "map_option (\<lambda>v. (last (trace v), updateRequests (trace v))) (syncTasks ex_labels_down)
       = Some (Console (ErrorSyncingTasks (HttpError 502)), [])"
    by (simp add: last_trace_console)
  have c: "map_option (\<lambda>v. (last (trace v), requestsOf (trace v))) (syncTasks ex_world)
       = Some (Console TaskSyncCompleted,
               [IssuesQuery None, WorkspaceLabelsQuery None,
                UpdateIssueMutation ''i1'' ?ids, UpdateIssueMutation ''i1'' ?ids,
                UpdateIssueMutation ''i1'' ?ids, UpdateIssueMutation ''i3'' [''L1'', ''L2'']])"
    by (simp add: eval_defs cong: let_weak_cong prod.case_cong_weak)
  note applies = inst [THEN conjunct2, THEN conjunct2, THEN conjunct1, rule_format]
  have c1: "map_option fst (fetchAllIssues ex_world) = Some (Inr ?issues)"
    by (simp add: eval_defs cong: let_weak_cong prod.case_cong_weak)
  have c2: "map_option fst (fetchWorkspaceLabels (console (FetchedIssues (length ?issues))
               (snd (the (fetchAllIssues ex_world)))))
            = Some (Inr [ex_system_label, ex_area_label])"
    by (simp add: eval_defs cong: let_weak_cong prod.case_cong_weak)
  from applies [OF conjI [OF Some_pair [OF c1] Some_pair [OF c2]]]
  have c3: "\<exists>w'. syncTasks ex_world = Some w' \<and> last (trace w') = Console TaskSyncCompleted"
    by blast
  have d1: "fst (updateOutcome ex_issue ?ids ex_world) = Inl (HttpError 502)"
    by (simp add: eval_defs cong: let_weak_cong prod.case_cong_weak)
  have d2: "updateOutcome ex_issue ?ids ex_world
      = (Inl (HttpError 502), snd (updateOutcome ex_issue ?ids ex_world))"
    by (rule prod_eqI) (simp_all add: d1)
  have d3: "last (trace (updateIssue ex_issue ?ids ex_world))
       = Console (ErrorUpdating ex_issue (HttpError 502))"
    unfolding raised [OF d2] by (rule last_trace_console)
  let ?body = "\<lparr>data = Some \<lparr>issueUpdate = Some \<lparr>success = False, updated = ex_issue\<rparr>\<rparr>,
              errors = None\<rparr>"
  have e1: "fst (updateOutcome ex_issue ?ids ex_refused) = Inr ?body"
    by (simp add: eval_defs cong: let_weak_cong prod.case_cong_weak)
  have e2: "updateOutcome ex_issue ?ids ex_refused
      = (Inr ?body, snd (updateOutcome ex_issue ?ids ex_refused))"
    by (rule prod_eqI) (simp_all add: e1)
  have "updateIssue ex_issue ?ids ex_refused
      = console (FailedToUpdate ex_issue) (snd (updateOutcome ex_issue ?ids ex_refused))"
    by (rule refused [where result = ?body and u = "\<lparr>success = False, updated = ex_issue\<rparr>"])
       (simp add: e2 [symmetric])
  then have e3: "last (trace (updateIssue ex_issue ?ids ex_refused))
      = Console (FailedToUpdate ex_issue)"
    by (simp add: last_trace_console)
  from a1 a2 b1 b3 c1 c3 c d1 d3 e3 show ?thesis by (intro conjI)
qed

text \<open>
  Claim C3, as the code has it. The system number is read from the first three
  characters of the first dot-separated segment only. For every project identifier whose
  first segment, cut to three characters, begins with decimal digits of value \<open>n\<close> and
  does not begin with \<^verbatim>\<open>0x\<close> or \<^verbatim>\<open>0X\<close>, \<open>inferCoreSystemsLabel\<close> returns
  \<^verbatim>\<open>"[" + pad3(floor(n/100)*100) + "-" + pad3(floor(n/100)*100 + 99) + "]"\<close>; the
  identifier \<^verbatim>\<open>123.45\<close> gives \<^verbatim>\<open>[100-199]\<close> and \<^verbatim>\<open>234.5\<close> gives \<^verbatim>\<open>[200-299]\<close>.
\<close>

theorem inferCoreSystemsLabel_hundreds:
  assumes "ds = takeWhile isDigit (take 3 (firstSegment s))"
    and "ds \<noteq> []"
    and "\<not> hexPrefix (take 3 (firstSegment s))"
  shows "inferCoreSystemsLabel s = Inr (spec_system_label (spec_decimal ds))
       \<and> inferCoreSystemsLabel ''123.45'' = Inr ''[100-199]''
       \<and> inferCoreSystemsLabel ''234.5'' = Inr ''[200-299]''"
proof -
  have ne: "s \<noteq> []"
    using assms(1,2) by (auto simp: firstSegment_def)
  have p: "parseInt (substring 0 3 (firstSegment s)) = Some (int (spec_decimal ds))"
    using parseInt_digits [of "take 3 (firstSegment s)"] assms
    by (simp add: substring_def)
  have f: "floorHundred (Some (int n)) = Some (int ((n div 100) * 100))" for n
    by (simp add: floorHundred_def zdiv_int)
  have g: "plus99 (Some (int n)) = Some (int (n + 99))" for n
    by (simp add: plus99_def)
  have general: "inferCoreSystemsLabel s = Inr (spec_system_label (spec_decimal ds))"
    unfolding inferCoreSystemsLabel_def
    apply (subst split_first)
    using ne
    apply (simp only: list.case if_False Let_def p f g toString_int)
    apply (simp add: spec_system_label_def spec_zero_padded_3_def padStart_def)
    done
  have e1: "inferCoreSystemsLabel ''123.45'' = Inr ''[100-199]''"
    by (simp add: js_defs)
  have e2: "inferCoreSystemsLabel ''234.5'' = Inr ''[200-299]''"
    by (simp add: js_defs)
  from general e1 e2 show ?thesis by simp
qed

text \<open>The theorem at the identifier \<^verbatim>\<open>150.2\<close>: the digits are \<^verbatim>\<open>150\<close>, the label
  \<^verbatim>\<open>[100-199]\<close>.\<close>

theorem inferCoreSystemsLabel_hundreds_witness:
  "takeWhile isDigit (take 3 (firstSegment ''150.2'')) = ''150''
   \<and> \<not> hexPrefix (take 3 (firstSegment ''150.2''))
   \<and> inferCoreSystemsLabel ''150.2'' = Inr (spec_system_label (spec_decimal ''150''))
   \<and> spec_system_label (spec_decimal ''150'') = ''[100-199]''"
proof -
  have a: "''150'' = takeWhile isDigit (take 3 (firstSegment ''150.2''))"
    by (simp add: js_defs)
  have b: "''150'' \<noteq> []" by simp
  have c: "\<not> hexPrefix (take 3 (firstSegment ''150.2''))"
    by (simp add: js_defs)
  have d: "spec_system_label (spec_decimal ''150'') = ''[100-199]''"
    by (simp add: js_defs)
  from inferCoreSystemsLabel_hundreds [OF a b c] a c d show ?thesis by simp
qed

text \<open>
  Claim C3 as the specification words it takes \<open>n\<close> from all the leading digits of the
  segment. At \<^verbatim>\<open>1234.5\<close> the leading digits are \<^verbatim>\<open>1234\<close>, for which the formula gives
  \<^verbatim>\<open>[1200-1299]\<close>, and the code returns \<^verbatim>\<open>[100-199]\<close>.
\<close>

theorem inferCoreSystemsLabel_four_digits:
  "takeWhile isDigit (firstSegment ''1234.5'') = ''1234''
   \<and> spec_decimal ''1234'' = 1234
   \<and> spec_system_label 1234 = ''[1200-1299]''
   \<and> inferCoreSystemsLabel ''1234.5'' = Inr ''[100-199]''
   \<and> inferCoreSystemsLabel ''1234.5'' \<noteq> Inr (spec_system_label 1234)"
  by (simp add: js_defs)

text \<open>
  Claim C4, as the code has it. Both static inference functions raise exactly when the
  project identifier is empty. A non-empty identifier with a non-numeric leading segment
  is not rejected: for \<^verbatim>\<open>abc\<close> the system label is \<^verbatim>\<open>[NaN-NaN]\<close> and the area label is
  \<^verbatim>\<open>[bc]\<close>.
\<close>

theorem static_inference_raises_iff_empty:
  "(\<exists>e. inferCoreSystemsLabel s = Inl e) = (s = [])
   \<and> (\<exists>e. inferCoreAreasLabel s = Inl e) = (s = [])
   \<and> inferCoreSystemsLabel [] = Inl (InvalidProjectIdentifier [])
   \<and> inferCoreAreasLabel [] = Inl (InvalidProjectIdentifier [])
   \<and> inferCoreSystemsLabel ''abc'' = Inr ''[NaN-NaN]''
   \<and> inferCoreAreasLabel ''abc'' = Inr ''[bc]''"
proof -
  have a: "(\<exists>e. inferCoreSystemsLabel s = Inl e) = (s = [])"
    unfolding inferCoreSystemsLabel_def
    by (subst split_first) (simp add: Let_def)
  have b: "(\<exists>e. inferCoreAreasLabel s = Inl e) = (s = [])"
    unfolding inferCoreAreasLabel_def
    by (subst split_first) (simp add: Let_def)
  have c: "inferCoreSystemsLabel ''abc'' = Inr ''[NaN-NaN]''"
    by (simp add: js_defs)
  have d: "inferCoreAreasLabel ''abc'' = Inr ''[bc]''"
    by (simp add: js_defs)
  from a b c d show ?thesis
    by (simp add: inferCoreSystemsLabel_def inferCoreAreasLabel_def)
qed

text \<open>
  Claim C4 as the specification words it: an identifier with a non-numeric leading
  segment makes both functions raise. At \<^verbatim>\<open>abc\<close> the segment has no leading digit, and
  both functions return a label.
\<close>

theorem static_inference_non_numeric_returns:
  "takeWhile isDigit (firstSegment ''abc'') = []
   \<and> inferCoreSystemsLabel ''abc'' = Inr ''[NaN-NaN]''
   \<and> inferCoreAreasLabel ''abc'' = Inr ''[bc]''"
  by (simp add: js_defs)

text \<open>
  Claim C5. For every non-empty project identifier, \<open>inferCoreAreasLabel\<close> returns the
  bracketed substring of the first dot-separated segment that starts at offset 1 and has
  at most 3 characters (\<^verbatim>\<open>slice(1, 4)\<close>); a segment shorter than 4 characters gives fewer
  than 3 characters, and the segment \<^verbatim>\<open>234\<close> gives \<^verbatim>\<open>[34]\<close>.
\<close>

theorem inferCoreAreasLabel_slice:
  assumes "s \<noteq> []"
  shows "inferCoreAreasLabel s = Inr (''['' @ take 3 (drop 1 (firstSegment s)) @ '']'')
       \<and> length (take 3 (drop 1 (firstSegment s))) \<le> 3
       \<and> (length (firstSegment s) < 4 \<longrightarrow> length (take 3 (drop 1 (firstSegment s))) < 3)
       \<and> inferCoreAreasLabel ''234.5'' = Inr ''[34]''"
proof -
  have a: "inferCoreAreasLabel s = Inr (''['' @ take 3 (drop 1 (firstSegment s)) @ '']'')"
    unfolding inferCoreAreasLabel_def
    using assms by (subst split_first) (simp add: Let_def slice_def)
  have b: "inferCoreAreasLabel ''234.5'' = Inr ''[34]''"
    by (simp add: js_defs)
  from a b show ?thesis by auto
qed

text \<open>The theorem at \<^verbatim>\<open>23.7\<close>: the segment \<^verbatim>\<open>23\<close> gives the one character \<^verbatim>\<open>3\<close>.\<close>

theorem inferCoreAreasLabel_slice_witness:
  "''23.7'' \<noteq> []
   \<and> firstSegment ''23.7'' = ''23''
   \<and> inferCoreAreasLabel ''23.7'' = Inr ''[3]''
   \<and> length (take 3 (drop 1 (firstSegment ''23.7''))) < 3"
proof -
  have a: "''23.7'' \<noteq> []" by simp
  have b: "firstSegment ''23.7'' = ''23''" by (simp add: firstSegment_def)
  from inferCoreAreasLabel_slice [OF a] b show ?thesis by simp
qed

text \<open>
  Claim C6. Let the operation perform no delay of its own, and let attempts \<open>1\<close> to
  \<open>k - 1\<close> fail, with \<open>1 \<le> k \<le> attempts\<close>. If attempt \<open>k\<close> succeeds with \<open>v\<close>, the wrapper
  returns \<open>v\<close> after exactly \<open>k - 1\<close> delays. If \<open>k\<close> is the whole budget and attempt \<open>k\<close>
  fails with \<open>e\<close>, the wrapper raises \<open>e\<close> itself, again after \<open>k - 1\<close> delays.
\<close>

theorem fetchWithRetry_contract:
  assumes nodelay: "\<forall>v. delays (trace (snd (operation v))) = delays (trace v)"
    and k: "1 \<le> k" "int k \<le> attempts"
    and fails: "\<forall>j. 1 \<le> j \<and> j < k \<longrightarrow> isl (fst (attempt operation attempts w j))"
  shows "(\<forall>v. fst (attempt operation attempts w k) = Inr v \<longrightarrow>
            fst (fetchWithRetry operation attempts w) = Inr v
            \<and> delays (trace (snd (fetchWithRetry operation attempts w)))
                = delays (trace w) + (k - 1))
       \<and> (\<forall>e. int k = attempts \<and> fst (attempt operation attempts w k) = Inl e \<longrightarrow>
            fst (fetchWithRetry operation attempts w) = Inl e
            \<and> delays (trace (snd (fetchWithRetry operation attempts w)))
                = delays (trace w) + (k - 1))"
proof -
  let ?v = "beforeAttempt operation attempts w (k - 1)"
  have f: "\<forall>j<k - 1. isl (fst (operation (beforeAttempt operation attempts w j)))"
  proof (intro allI impI)
    fix j assume "j < k - 1"
    then have "1 \<le> Suc j \<and> Suc j < k" by simp
    with fails have "isl (fst (attempt operation attempts w (Suc j)))" by blast
    then show "isl (fst (operation (beforeAttempt operation attempts w j)))"
      by (simp add: attempt_def)
  qed
  have lt: "int (k - 1) < attempts" using k by simp
  have skip: "fetchWithRetry operation attempts w =
      fetchWithRetry operation (attempts - int (k - 1)) ?v"
    by (rule fetchWithRetry_skip [OF f lt])
  have d: "delays (trace (snd (operation ?v))) = delays (trace w) + (k - 1)"
    using nodelay delays_beforeAttempt [OF nodelay] by simp
  have good: "fetchWithRetry operation attempts w = (Inr v, snd (operation ?v))"
    if "fst (attempt operation attempts w k) = Inr v" for v
    unfolding skip
    apply (subst fetchWithRetry.simps)
    using that by (cases "operation ?v") (simp add: attempt_def)
  have bad: "fetchWithRetry operation attempts w = (Inl e, snd (operation ?v))"
    if "int k = attempts" "fst (attempt operation attempts w k) = Inl e" for e
    unfolding skip
    apply (subst fetchWithRetry.simps)
    using that k by (cases "operation ?v") (auto simp add: attempt_def)
  show ?thesis
    using good bad d by simp
qed

text \<open>
  The theorem with the default budget of 3 on an update request: against \<open>ex_flaky\<close> the
  first two attempts fail and the third returns the response, after exactly 2 delays;
  against \<open>ex_world\<close> all three fail and the error of the third, status 502, is raised.
\<close>

theorem fetchWithRetry_contract_witness:
  "isl (fst (attempt ex_operation RETRY_ATTEMPTS ex_flaky 1))
   \<and> isl (fst (attempt ex_operation RETRY_ATTEMPTS ex_flaky 2))
   \<and> fst (attempt ex_operation RETRY_ATTEMPTS ex_flaky 3)
       = Inr \<lparr>data = Some ex_update_data, errors = None\<rparr>
   \<and> fst (fetchWithRetry ex_operation RETRY_ATTEMPTS ex_flaky)
       = Inr \<lparr>data = Some ex_update_data, errors = None\<rparr>
   \<and> delays (trace (snd (fetchWithRetry ex_operation RETRY_ATTEMPTS ex_flaky))) = 2
   \<and> fst (attempt ex_operation RETRY_ATTEMPTS ex_world 3) = Inl (HttpError 502)
   \<and> fst (fetchWithRetry ex_operation RETRY_ATTEMPTS ex_world) = Inl (HttpError 502)"
proof -
  have nodelay: "\<forall>v. delays (trace (snd (ex_operation v))) = delays (trace v)"
    by (simp add: ex_operation_def delays_graphqlRequest)
  have k: "1 \<le> (3::nat)" "int 3 \<le> RETRY_ATTEMPTS"
    by (simp_all add: RETRY_ATTEMPTS_def)
  have k3: "int 3 = RETRY_ATTEMPTS"
    by (simp add: RETRY_ATTEMPTS_def)
  have a1: "isl (fst (attempt ex_operation RETRY_ATTEMPTS ex_flaky 1))" by code_simp
  have a2: "isl (fst (attempt ex_operation RETRY_ATTEMPTS ex_flaky 2))" by code_simp
  have a3: "fst (attempt ex_operation RETRY_ATTEMPTS ex_flaky 3)
       = Inr \<lparr>data = Some ex_update_data, errors = None\<rparr>" by code_simp
  have b1: "isl (fst (attempt ex_operation RETRY_ATTEMPTS ex_world 1))" by code_simp
  have b2: "isl (fst (attempt ex_operation RETRY_ATTEMPTS ex_world 2))" by code_simp
  have b3: "fst (attempt ex_operation RETRY_ATTEMPTS ex_world 3) = Inl (HttpError 502)"
    by code_simp
  have two: "j = 1 \<or> j = 2" if "1 \<le> j \<and> j < 3" for j :: nat
    using that by auto
  have fails: "\<forall>j. 1 \<le> j \<and> j < 3 \<longrightarrow> isl (fst (attempt ex_operation RETRY_ATTEMPTS ex_flaky j))"
    using a1 a2 two by blast
  have fails': "\<forall>j. 1 \<le> j \<and> j < 3 \<longrightarrow> isl (fst (attempt ex_operation RETRY_ATTEMPTS ex_world j))"
    using b1 b2 two by blast
  have d0: "delays (trace ex_flaky) = 0" by code_simp
  from fetchWithRetry_contract [OF nodelay k fails] a3 d0
  have good: "fst (fetchWithRetry ex_operation RETRY_ATTEMPTS ex_flaky)
       = Inr \<lparr>data = Some ex_update_data, errors = None\<rparr>
     \<and> delays (trace (snd (fetchWithRetry ex_operation RETRY_ATTEMPTS ex_flaky))) = 2"
    by simp
  from fetchWithRetry_contract [OF nodelay k fails'] b3 k3
  have bad: "fst (fetchWithRetry ex_operation RETRY_ATTEMPTS ex_world) = Inl (HttpError 502)"
    by simp
  from a1 a2 a3 good b3 bad show ?thesis by simp
qed



text \<open>
  Claim C8. In both variants one round of the apply loop sends an update request for the
  issue if and only if the target list and the list of existing ids differ in length;
  both lists are sets without repetition and the target contains the existing ids, so the
  lengths differ if and only if the target set strictly contains the existing set. Every
  request sent carries exactly the target list.

  In the lookup-table variant the target is the list of values that the loop builds:
  after the existing ids, what the name-to-id object yields for each required name when
  that is truthy, be it the id of a workspace label or a member that the object
  inherits. A run whose two listings return and whose mapping document is read applies
  this round to each selected issue: the update requests of the run are those of the
  selected issues whose target differs in length from their existing ids.
\<close>

theorem submit_iff_strict_superset:
  "(\<forall>names. requiredNames issue = Some names \<longrightarrow>
      (requestsDuring w (snd (applyIssue m issue w)) \<noteq> [])
        = (length (plannedLabelIds m issue names) \<noteq> length (existingIds issue))
      \<and> (length (plannedLabelIds m issue names) \<noteq> length (existingIds issue))
        = (set (existingIds issue) \<subset> set (plannedLabelIds m issue names))
      \<and> (\<forall>r \<in> set (requestsDuring w (snd (applyIssue m issue w))).
            r = UpdateIssueMutation (issue_id issue) (plannedLabelIds m issue names)))
   \<and> (\<forall>names. requiredNames_v1 mapping issue = Some names \<longrightarrow>
      (requestsDuring w (snd (applyIssue_v1 (Some mapping) m issue w)) \<noteq> [])
        = (length (plannedLabelIds_v1 m issue names) \<noteq> length (existingIds_v1 issue))
      \<and> (length (plannedLabelIds_v1 m issue names) \<noteq> length (existingIds_v1 issue))
        = (set (existingIds_v1 issue) \<subset> set (plannedLabelIds_v1 m issue names))
      \<and> set (existingIds_v1 issue) \<subseteq> set (plannedLabelIds_v1 m issue names)
      \<and> (\<forall>r \<in> set (requestsDuring w (snd (applyIssue_v1 (Some mapping) m issue w))).
            r = UpdateIssueMutation_v1 (issue_id issue) (plannedLabelIds_v1 m issue names)))
   \<and> (\<forall>issues w1 workspaceLabels w2.
        fetchAllIssues w = Some (Inr issues, w1)
        \<and> fetchWorkspaceLabels (console (FetchedIssues (length issues)) w1)
            = Some (Inr workspaceLabels, w2)
        \<and> mappingFile w = Parsed (Some mapping) \<longrightarrow>
        (\<exists>v. syncTasks_v1 w = Some (Normal (), v)
           \<and> last (trace v) = Console TaskSyncCompleted
           \<and> set (requestsDuring w2 v)
               = (\<lambda>i. updateOf_v1 (labelNameToId workspaceLabels) i (requiredNames_v1 mapping i))
                 ` {i \<in> set issues. missesRequired_v1 (requiredNames_v1 mapping i) i
                      \<and> submits_v1 (labelNameToId workspaceLabels) i
                           (requiredNames_v1 mapping i)}))"
proof -
  have a: "(requestsDuring w (reconcile warn m issue (Some names) w) \<noteq> [])
        = (length (plannedLabelIds m issue names) \<noteq> length (existingIds issue))
      \<and> (\<forall>r \<in> set (requestsDuring w (reconcile warn m issue (Some names) w)).
            r = UpdateIssueMutation (issue_id issue) (plannedLabelIds m issue names))"
    for warn names
  proof -
    obtain k where k: "requestsDuring w (reconcile warn m issue (Some names) w)
        = replicate k (updateOf m issue (Some names))"
      and kk: "(0 < k) = submits m issue (Some names)"
      using requestsDuring_reconcile by blast
    show ?thesis
      unfolding k using kk by (auto simp: submits_def updateOf_def)
  qed
  have b: "(requestsDuring w (reconcile_v1 m issue (Some names) w) \<noteq> [])
        = (length (plannedLabelIds_v1 m issue names) \<noteq> length (existingIds_v1 issue))
      \<and> (\<forall>r \<in> set (requestsDuring w (reconcile_v1 m issue (Some names) w)).
            r = UpdateIssueMutation_v1 (issue_id issue) (plannedLabelIds_v1 m issue names))"
    for names
  proof -
    obtain k where k: "requestsDuring w (reconcile_v1 m issue (Some names) w)
        = replicate k (updateOf_v1 m issue (Some names))"
      and kk: "(0 < k) = submits_v1 m issue (Some names)"
      using requestsDuring_reconcile_v1 by blast
    show ?thesis
      unfolding k using kk by (auto simp: submits_v1_def updateOf_v1_def)
  qed
  have c: "set (existingIds_v1 issue) \<subseteq> set (plannedLabelIds_v1 m issue names)" for names
    unfolding set_plannedLabelIds_v1 by blast
  have d: "\<exists>v. syncTasks_v1 w = Some (Normal (), v)
           \<and> last (trace v) = Console TaskSyncCompleted
           \<and> set (requestsDuring w2 v)
               = (\<lambda>i. updateOf_v1 (labelNameToId workspaceLabels) i (requiredNames_v1 mapping i))
                 ` {i \<in> set issues. missesRequired_v1 (requiredNames_v1 mapping i) i
                      \<and> submits_v1 (labelNameToId workspaceLabels) i
                           (requiredNames_v1 mapping i)}"
    if i: "fetchAllIssues w = Some (Inr issues, w1)"
      and l: "fetchWorkspaceLabels (console (FetchedIssues (length issues)) w1)
            = Some (Inr workspaceLabels, w2)"
      and mf: "mappingFile w = Parsed (Some mapping)"
    for issues w1 workspaceLabels w2
    using syncTasks_v1_applies [OF i l mf] by blast
  show ?thesis
    unfolding applyIssue_reconcile applyIssue_v1_reconcile snd_conv
    apply (intro conjI allI impI)
    subgoal for names by (simp only: a)
    subgoal for names by (rule planned_size_iff)
    subgoal for names using a [of LabelIdNotFound names] by simp
    subgoal for names by (simp only: b)
    subgoal for names by (rule planned_v1_size_iff)
    subgoal for names by (rule c)
    subgoal for names using b [of names] by simp
    subgoal for issues w1 workspaceLabels w2 by (elim conjE) (rule d)
    done
qed

text \<open>
  The theorem on the examples: \<^verbatim>\<open>i1\<close> grows from \<^verbatim>\<open>L9\<close> to \<^verbatim>\<open>L9, L1\<close> and is
  submitted; \<^verbatim>\<open>i2\<close> keeps its list and is not. With the document that names the label
  \<^verbatim>\<open>toString\<close> and the area label as the only label of the workspace, the target of
  \<^verbatim>\<open>i1\<close> has three entries and \<^verbatim>\<open>i1\<close> is submitted with them. The run on
  \<open>ex_lookup_world\<close> completes and sends the updates of \<^verbatim>\<open>i1\<close> and \<^verbatim>\<open>i3\<close>.
\<close>

theorem submit_iff_strict_superset_witness:
  "requiredNames ex_issue = Some [''[100-199]'', ''[50]'']
   \<and> requiredNames_v1 ex_mapping ex_labelled_issue = Some [Some ''[100-199]'', Some ''[50]'']
   \<and> existingIds ex_issue = [''L9'']
   \<and> plannedLabelIds ex_one_label_map ex_issue [''[100-199]'', ''[50]''] = [''L9'', ''L1'']
   \<and> requestsDuring ex_flaky (snd (applyIssue ex_one_label_map ex_issue ex_flaky)) \<noteq> []
   \<and> set (existingIds ex_issue)
       \<subset> set (plannedLabelIds ex_one_label_map ex_issue [''[100-199]'', ''[50]''])
   \<and> plannedLabelIds_v1 ex_one_label_map ex_labelled_issue [Some ''[100-199]'', Some ''[50]'']
       = existingIds_v1 ex_labelled_issue
   \<and> requestsDuring ex_flaky
        (snd (applyIssue_v1 (Some ex_mapping) ex_one_label_map ex_labelled_issue ex_flaky)) = []
   \<and> requiredNames_v1 ex_member_mapping ex_issue = Some [Some ''toString'', Some ''[50]'']
   \<and> existingIds_v1 ex_issue = [Value ''L9'']
   \<and> plannedLabelIds_v1 (labelNameToId [ex_area_label]) ex_issue [Some ''toString'', Some ''[50]'']
       = [Value ''L9'', PrototypeMember ''toString'', Value ''L2'']
   \<and> set (existingIds_v1 ex_issue)
       \<subset> set (plannedLabelIds_v1 (labelNameToId [ex_area_label]) ex_issue
                [Some ''toString'', Some ''[50]''])
   \<and> UpdateIssueMutation_v1 ''i1'' [Value ''L9'', PrototypeMember ''toString'', Value ''L2'']
       \<in> set (requestsDuring ex_flaky
                (snd (applyIssue_v1 (Some ex_member_mapping) (labelNameToId [ex_area_label])
                        ex_issue ex_flaky)))
   \<and> (\<exists>v. syncTasks_v1 ex_lookup_world = Some (Normal (), v)
         \<and> last (trace v) = Console TaskSyncCompleted)
   \<and> map_option (\<lambda>r. requestsOf (trace (snd r))) (syncTasks_v1 ex_lookup_world)
       = Some [IssuesQuery None, WorkspaceLabelsQuery None,
               UpdateIssueMutation_v1 ''i1'' [Value ''L9'', Value ''L1'', Value ''L2''],
               UpdateIssueMutation_v1 ''i3'' [Value ''L1'', Value ''L2'']]"
proof -
  let ?issues = "[ex_issue, ex_partial_issue, ex_labelled_issue]"
  let ?m = "labelNameToId [ex_area_label]"
  let ?names = "[Some ''toString'', Some ''[50]'']"
  let ?target = "[Value ''L9'', PrototypeMember ''toString'', Value ''L2'']"
  have n: "requiredNames ex_issue = Some [''[100-199]'', ''[50]'']" by code_simp
  have n1: "requiredNames_v1 ex_mapping ex_labelled_issue = Some [Some ''[100-199]'', Some ''[50]'']"
    by code_simp
  have n2: "requiredNames_v1 ex_member_mapping ex_issue = Some ?names" by code_simp
  have e: "existingIds ex_issue = [''L9'']" by code_simp
  have e2: "existingIds_v1 ex_issue = [Value ''L9'']" by code_simp
  have p: "plannedLabelIds ex_one_label_map ex_issue [''[100-199]'', ''[50]''] = [''L9'', ''L1'']"
    by code_simp
  have q: "plannedLabelIds_v1 ex_one_label_map ex_labelled_issue [Some ''[100-199]'', Some ''[50]'']
       = existingIds_v1 ex_labelled_issue"
    by code_simp
  have p2: "plannedLabelIds_v1 ?m ex_issue ?names = ?target" by code_simp
  note inst = submit_iff_strict_superset
    [of ex_issue ex_flaky ex_one_label_map ex_mapping]
  note inst1 = submit_iff_strict_superset
    [of ex_labelled_issue ex_flaky ex_one_label_map ex_mapping]
  note inst2 = submit_iff_strict_superset
    [of ex_issue ex_flaky ?m ex_member_mapping]
  note whole = submit_iff_strict_superset
    [of ex_issue ex_lookup_world ex_one_label_map ex_mapping]
  have d: "length (plannedLabelIds ex_one_label_map ex_issue [''[100-199]'', ''[50]''])
      \<noteq> length (existingIds ex_issue)"
    by (simp add: e p)
  from inst [THEN conjunct1, rule_format, OF n] d
  have a: "requestsDuring ex_flaky (snd (applyIssue ex_one_label_map ex_issue ex_flaky)) \<noteq> []"
    and b: "set (existingIds ex_issue)
       \<subset> set (plannedLabelIds ex_one_label_map ex_issue [''[100-199]'', ''[50]''])"
    by blast+
  from inst1 [THEN conjunct2, THEN conjunct1, rule_format, OF n1] q
  have c: "requestsDuring ex_flaky
        (snd (applyIssue_v1 (Some ex_mapping) ex_one_label_map ex_labelled_issue ex_flaky)) = []"
    by force
  note member = inst2 [THEN conjunct2, THEN conjunct1, rule_format, OF n2]
  have d2: "length (plannedLabelIds_v1 ?m ex_issue ?names) \<noteq> length (existingIds_v1 ex_issue)"
    by (simp add: e2 p2)
  from member d2
  have b2: "set (existingIds_v1 ex_issue) \<subset> set (plannedLabelIds_v1 ?m ex_issue ?names)"
    and sent: "requestsDuring ex_flaky
                (snd (applyIssue_v1 (Some ex_member_mapping) ?m ex_issue ex_flaky)) \<noteq> []"
    by blast+
  from sent obtain r where r: "r \<in> set (requestsDuring ex_flaky
                (snd (applyIssue_v1 (Some ex_member_mapping) ?m ex_issue ex_flaky)))"
    by (cases "requestsDuring ex_flaky
                (snd (applyIssue_v1 (Some ex_member_mapping) ?m ex_issue ex_flaky))") auto
  with member have "r = UpdateIssueMutation_v1 (issue_id ex_issue) (plannedLabelIds_v1 ?m ex_issue ?names)"
    by blast
  moreover have "issue_id ex_issue = ''i1''" by (simp add: ex_issue_def)
  ultimately have "r = UpdateIssueMutation_v1 ''i1'' ?target"
    by (simp only: p2)
  with r have s2: "UpdateIssueMutation_v1 ''i1'' ?target
       \<in> set (requestsDuring ex_flaky
                (snd (applyIssue_v1 (Some ex_member_mapping) ?m ex_issue ex_flaky)))"
    by simp
  note run = whole [THEN conjunct2, THEN conjunct2, rule_format]
  have f1: "map_option fst (fetchAllIssues ex_lookup_world) = Some (Inr ?issues)"
    by (simp add: eval_defs cong: let_weak_cong prod.case_cong_weak)
  have f2: "map_option fst (fetchWorkspaceLabels (console (FetchedIssues (length ?issues))
               (snd (the (fetchAllIssues ex_lookup_world)))))
            = Some (Inr [ex_system_label, ex_area_label])"
    by (simp add: eval_defs cong: let_weak_cong prod.case_cong_weak)
  have f3: "mappingFile ex_lookup_world = Parsed (Some ex_mapping)"
    by (simp add: ex_lookup_world_def)
  from run [OF conjI [OF Some_pair [OF f1] conjI [OF Some_pair [OF f2] f3]]]
  have g: "\<exists>v. syncTasks_v1 ex_lookup_world = Some (Normal (), v)
         \<and> last (trace v) = Console TaskSyncCompleted"
    by blast
  have h: "map_option (\<lambda>r. requestsOf (trace (snd r))) (syncTasks_v1 ex_lookup_world)
       = Some [IssuesQuery None, WorkspaceLabelsQuery None,
               UpdateIssueMutation_v1 ''i1'' [Value ''L9'', Value ''L1'', Value ''L2''],
               UpdateIssueMutation_v1 ''i3'' [Value ''L1'', Value ''L2'']]"
    by (simp add: eval_defs cong: let_weak_cong prod.case_cong_weak)
  from n n1 e p a b q c n2 e2 p2 b2 s2 g h show ?thesis by (intro conjI)
qed

text \<open>
  Claim C9, as the code has it. In the lookup-table variant the mapping document is
  loaded after both listings have been fetched. When the document cannot be read or
  parsed, a run that returns has sent no update request, but it has sent the first
  issue-list request; when the process exits on the document, the label-list request has
  been sent as well; and when both listings return, the process exits with status 1
  right after the line \<^verbatim>\<open>Error loading project label mappings\<close>.
\<close>

theorem mapping_failure_exits_after_fetch:
  assumes bad: "mappingFile w = ReadFails \<or> mappingFile w = ParseFails"
  shows "(\<forall>c w'. syncTasks_v1 w = Some (c, w') \<longrightarrow>
            updateRequests (trace w') = updateRequests (trace w)
            \<and> (\<exists>rs. requestsDuring w w' = IssuesQuery None # rs)
            \<and> (c = ProcessExit 1 \<longrightarrow>
                 (\<exists>rs rs'. requestsDuring w w'
                    = IssuesQuery None # rs @ WorkspaceLabelsQuery None # rs')))
       \<and> (\<forall>issues w1 workspaceLabels w2.
            fetchAllIssues w = Some (Inr issues, w1)
            \<and> fetchWorkspaceLabels (console (FetchedIssues (length issues)) w1)
                = Some (Inr workspaceLabels, w2) \<longrightarrow>
            syncTasks_v1 w = Some (ProcessExit 1,
              console ErrorLoadingMappings
                (console (FetchedWorkspaceLabels (length workspaceLabels)) w2)))"
proof (intro conjI allI impI)
  fix issues w1 workspaceLabels w2
  assume "fetchAllIssues w = Some (Inr issues, w1)
            \<and> fetchWorkspaceLabels (console (FetchedIssues (length issues)) w1)
                = Some (Inr workspaceLabels, w2)"
  then show "syncTasks_v1 w = Some (ProcessExit 1,
              console ErrorLoadingMappings
                (console (FetchedWorkspaceLabels (length workspaceLabels)) w2))"
    using syncTasks_v1_mapping_fails [OF bad] by blast
next
  fix c w'
  assume run: "syncTasks_v1 w = Some (c, w')"
  have all: "updateRequests (trace w') = updateRequests (trace w)
      \<and> (\<exists>rs. requestsDuring w w' = IssuesQuery None # rs)
      \<and> (c = ProcessExit 1 \<longrightarrow>
           (\<exists>rs rs'. requestsDuring w w' = IssuesQuery None # rs @ WorkspaceLabelsQuery None # rs'))"
  proof (cases "fetchAllIssues w")
    case None
    with run show ?thesis by (simp add: syncTasks_v1_def)
  next
    case (Some y)
    obtain r1 w1 where y: "y = (r1, w1)" by (cases y)
    obtain rs where s1: "sends w w1 (IssuesQuery None # rs)" and u1: "filter isUpdate rs = []"
      using sends_fetchAllIssues Some y by blast
    show ?thesis
    proof (cases r1)
      case (Inl e)
      with run Some y have c: "c = Normal ()" and w': "w' = console (ErrorSyncingTasks e) w1"
        by (simp_all add: syncTasks_v1_def)
      have "sends w w' (IssuesQuery None # rs)"
        unfolding w' using s1 by (rule sends_console')
      then show ?thesis
        using c u1 updateRequests_sends sends_requestsDuring by fastforce
    next
      case (Inr issues)
      let ?v = "console (FetchedIssues (length issues)) w1"
      have sv: "sends w ?v (IssuesQuery None # rs)"
        using s1 by (rule sends_console')
      show ?thesis
      proof (cases "fetchWorkspaceLabels ?v")
        case None
        with run Some y Inr show ?thesis by (simp add: syncTasks_v1_def)
      next
        case (Some z)
        obtain r2 w2 where z: "z = (r2, w2)" by (cases z)
        obtain rs' where s2: "sends ?v w2 (WorkspaceLabelsQuery None # rs')"
          and u2: "filter isUpdate rs' = []"
          using sends_fetchWorkspaceLabels Some z by blast
        have s12: "sends w w2 (IssuesQuery None # rs @ WorkspaceLabelsQuery None # rs')"
          using sends_trans [OF sv s2] by simp
        have u12: "filter isUpdate (IssuesQuery None # rs @ WorkspaceLabelsQuery None # rs') = []"
          using u1 u2 by simp
        show ?thesis
        proof (cases r2)
          case (Inl e)
          with run \<open>fetchAllIssues w = Some y\<close> y Inr Some z
          have c: "c = Normal ()" and w': "w' = console (ErrorSyncingTasks e) w2"
            by (simp_all add: syncTasks_v1_def)
          have "sends w w' (IssuesQuery None # rs @ WorkspaceLabelsQuery None # rs')"
            unfolding w' using s12 by (rule sends_console')
          then show ?thesis
            using c u12 updateRequests_sends [of w w'] sends_requestsDuring [of w w']
            by fastforce
        next
          case (Inr workspaceLabels)
          have "syncTasks_v1 w = Some (ProcessExit 1,
              console ErrorLoadingMappings
                (console (FetchedWorkspaceLabels (length workspaceLabels)) w2))"
            using syncTasks_v1_mapping_fails [OF bad] \<open>fetchAllIssues w = Some y\<close> y
              \<open>r1 = Inr issues\<close> Some z Inr by simp
          with run have w': "w' = console ErrorLoadingMappings
                (console (FetchedWorkspaceLabels (length workspaceLabels)) w2)"
            by simp
          have "sends w w' (IssuesQuery None # rs @ WorkspaceLabelsQuery None # rs')"
            unfolding w' using s12 by (intro sends_console')
          then show ?thesis
            using u12 updateRequests_sends [of w w'] sends_requestsDuring [of w w']
            by fastforce
        qed
      qed
    qed
  qed
  from all show "updateRequests (trace w') = updateRequests (trace w)" by simp
  from all show "\<exists>rs. requestsDuring w w' = IssuesQuery None # rs" by simp
  from all show "c = ProcessExit 1 \<Longrightarrow>
     \<exists>rs rs'. requestsDuring w w' = IssuesQuery None # rs @ WorkspaceLabelsQuery None # rs'"
    by simp
qed

text \<open>The theorem on \<open>ex_world\<close>, whose mapping document cannot be read.\<close>

theorem mapping_failure_exits_after_fetch_witness:
  "mappingFile ex_world = ReadFails
   \<and> map_option fst (syncTasks_v1 ex_world) = Some (ProcessExit 1)
   \<and> map_option (\<lambda>r. updateRequests (trace (snd r))) (syncTasks_v1 ex_world) = Some []
   \<and> (\<exists>rs rs'. map_option (\<lambda>r. requestsDuring ex_world (snd r)) (syncTasks_v1 ex_world)
         = Some (IssuesQuery None # rs @ WorkspaceLabelsQuery None # rs'))"
proof -
  have bad: "mappingFile ex_world = ReadFails \<or> mappingFile ex_world = ParseFails"
    by (simp add: eval_defs cong: let_weak_cong prod.case_cong_weak)
  have m: "mappingFile ex_world = ReadFails" by (simp add: eval_defs cong: let_weak_cong prod.case_cong_weak)
  have r: "map_option fst (syncTasks_v1 ex_world) = Some (ProcessExit 1)" by (simp add: eval_defs cong: let_weak_cong prod.case_cong_weak)
  have u0: "updateRequests (trace ex_world) = []" by (simp add: eval_defs cong: let_weak_cong prod.case_cong_weak)
  note run = Some_pair [OF r]
  from mapping_failure_exits_after_fetch [OF bad] run
  have u: "updateRequests (trace (snd (the (syncTasks_v1 ex_world)))) = updateRequests (trace ex_world)"
    and q: "\<exists>rs rs'. requestsDuring ex_world (snd (the (syncTasks_v1 ex_world)))
         = IssuesQuery None # rs @ WorkspaceLabelsQuery None # rs'"
    by blast+
  have "map_option (\<lambda>r. updateRequests (trace (snd r))) (syncTasks_v1 ex_world) = Some []"
    by (subst run) (simp add: u u0)
  moreover from q obtain rs rs' where
    "requestsDuring ex_world (snd (the (syncTasks_v1 ex_world)))
         = IssuesQuery None # rs @ WorkspaceLabelsQuery None # rs'" by blast
  then have "\<exists>rs rs'. map_option (\<lambda>r. requestsDuring ex_world (snd r)) (syncTasks_v1 ex_world)
         = Some (IssuesQuery None # rs @ WorkspaceLabelsQuery None # rs')"
    by (subst run) auto
  ultimately show ?thesis using m r by (intro conjI)
qed

text \<open>
  Claim C9 as the specification words it: no issue-list or label-list request is sent
  when the mapping cannot be loaded. On \<open>ex_world\<close> the document cannot be read, and the
  run has sent one request of each listing before it exits.
\<close>

theorem mapping_failure_after_network_activity:
  "mappingFile ex_world = ReadFails
   \<and> map_option (\<lambda>r. (fst r, requestsOf (trace (snd r)))) (syncTasks_v1 ex_world)
       = Some (ProcessExit 1, [IssuesQuery None, WorkspaceLabelsQuery None])"
  by (simp add: eval_defs cong: let_weak_cong prod.case_cong_weak)

text \<open>
  Claim C10, as the code has it. When \<^verbatim>\<open>LINEAR_API_KEY\<close> is set to a non-empty string,
  the entry point of the static variant starts two passes, each a run of \<open>syncTasks\<close>,
  and each pass that returns has first sent the issue-list request with no cursor. When
  the key is missing or empty the process exits with status 1 and starts no pass.
\<close>

theorem main_starts_two_passes:
  "(truthy key \<longrightarrow>
      fst (main key w1 w2) = Normal [syncTasks w1, syncTasks w2]
      \<and> (\<forall>v. syncTasks w1 = Some v \<longrightarrow> (\<exists>rs. requestsDuring w1 v = IssuesQuery None # rs))
      \<and> (\<forall>v. syncTasks w2 = Some v \<longrightarrow> (\<exists>rs. requestsDuring w2 v = IssuesQuery None # rs)))
   \<and> (\<not> truthy key \<longrightarrow> main key w1 w2 = (ProcessExit 1, [ApiKeyNotSet]))"
  using syncTasks_starts_with_issue_query by (simp add: main_def)

text \<open>The theorem with a key, on two of the example worlds.\<close>

theorem main_starts_two_passes_witness:
  "truthy (Some ''lin_api_key'')
   \<and> fst (main (Some ''lin_api_key'') ex_world ex_flaky)
       = Normal [syncTasks ex_world, syncTasks ex_flaky]
   \<and> (\<exists>v rs. syncTasks ex_world = Some v \<and> requestsDuring ex_world v = IssuesQuery None # rs)
   \<and> (\<exists>v rs. syncTasks ex_flaky = Some v \<and> requestsDuring ex_flaky v = IssuesQuery None # rs)"
proof -
  have t: "truthy (Some ''lin_api_key'')" by (simp add: eval_defs cong: let_weak_cong prod.case_cong_weak)
  have r1: "map_option (\<lambda>v. ()) (syncTasks ex_world) = Some ()" by (simp add: eval_defs cong: let_weak_cong prod.case_cong_weak)
  have r2: "map_option (\<lambda>v. ()) (syncTasks ex_flaky) = Some ()" by (simp add: eval_defs cong: let_weak_cong prod.case_cong_weak)
  from r1 obtain v1 where v1: "syncTasks ex_world = Some v1" by auto
  from r2 obtain v2 where v2: "syncTasks ex_flaky = Some v2" by auto
  from main_starts_two_passes [of "Some ''lin_api_key''" ex_world ex_flaky] t v1 v2
  show ?thesis by simp
qed

text \<open>
  Claim C10 as the specification words it: every invocation starts two passes. Without
  the key, or with an empty one, the invocation starts none.
\<close>

theorem main_without_key_starts_no_pass:
  "main None ex_world ex_world = (ProcessExit 1, [ApiKeyNotSet])
   \<and> main (Some []) ex_world ex_world = (ProcessExit 1, [ApiKeyNotSet])"
  by (simp add: main_def truthy_def)

end
